theory Spec2Isabelle
  imports Main "HOL-Library.Sublist"
begin

section \<open>Python values, strings and exceptions\<close>

text \<open>
  The REST resources of \<^verbatim>\<open>api.py\<close> and the models of \<^verbatim>\<open>models/uploader.py\<close>
  are embedded as HOL functions. Every exception the Python can raise is a value of
  type \<open>error\<close>; a function that can raise returns \<open>error + 'a\<close> with \<open>Inl\<close> for
  the exception. Calls into the host frameworks (the parent classes of the resources,
  \<^verbatim>\<open>facilities_managed_by\<close>, \<^verbatim>\<open>get_ip\<close>, \<^verbatim>\<open>Experiment.safe\<close>,
  \<^verbatim>\<open>datetime.now\<close>) are parameters of the functions that make them.
\<close>

datatype error =
    KeyError string
  | UnboundLocalError string
  | AttributeError string
  | FieldError string
  | InvalidFilterError string
  | IndexError
  | TypeError
  | DoesNotExist
  | MultipleObjectsReturned
  | IntegrityError string
  | ImmediateHttpResponse nat
  | NotImplementedError
  | OtherError string

type_synonym datetime = nat

text \<open>The values a deserialized request payload (\<^verbatim>\<open>bundle.data\<close>) can hold.\<close>

datatype pyvalue =
    PNone
  | PBool bool
  | PInt int
  | PStr string
  | PTime datetime
  | PList "pyvalue list"
  | PDict "(string \<times> pyvalue) list"

text \<open>
  The text of a request, of a parameter and of an account is Unicode text
  (\<^verbatim>\<open>unicode\<close>); a \<open>char\<close> is a code point below 256, and text with other
  code points is outside the model.

  \<^verbatim>\<open>unicode.lower\<close>: the capital letters below 256 are \<^verbatim>\<open>A\<close> to \<^verbatim>\<open>Z\<close>
  (65 to 90) and the Latin-1 capitals 192 to 222 without the multiplication sign 215;
  the small letter of each is 32 above it, which is the capital with the bit of
  value 32 set. Every other code point is left as it is.
\<close>

definition is_upper :: "char \<Rightarrow> bool" where
  "is_upper c =
     (let n = (of_char c :: nat)
      in (65 \<le> n \<and> n \<le> 90) \<or> (192 \<le> n \<and> n \<le> 222 \<and> n \<noteq> 215))"

definition lower_char :: "char \<Rightarrow> char" where
  "lower_char c =
     (if is_upper c
      then (case c of Char b0 b1 b2 b3 b4 b5 b6 b7 \<Rightarrow> Char b0 b1 b2 b3 b4 True b6 b7)
      else c)"

definition lower :: "string \<Rightarrow> string" where
  "lower s = map lower_char s"

text \<open>
  \<^verbatim>\<open>unicode.strip\<close>: whitespace removed at both ends. The whitespace below 256 is
  9 to 13, the separators 28 to 31, the space 32, the next-line control 133 and the
  no-break space 160.
\<close>

definition is_space :: "char \<Rightarrow> bool" where
  "is_space c = ((of_char c :: nat) \<in> {9, 10, 11, 12, 13, 28, 29, 30, 31, 32, 133, 160})"

definition strip :: "string \<Rightarrow> string" where
  "strip s = rev (dropWhile is_space (rev (dropWhile is_space s)))"

text \<open>\<^verbatim>\<open>s.startswith(p)\<close> is \<open>prefix p s\<close>; \<^verbatim>\<open>p in s\<close> on strings is \<open>sublist p s\<close>.\<close>

definition startswith :: "string \<Rightarrow> string \<Rightarrow> bool" where
  "startswith s p = prefix p s"

definition str_contains :: "string \<Rightarrow> string \<Rightarrow> bool" where
  "str_contains p s = sublist p s"

text \<open>Dictionaries whose keys are iterated over are association lists.\<close>

definition dict_has :: "(string \<times> 'v) list \<Rightarrow> string \<Rightarrow> bool" where
  "dict_has d k = (k \<in> set (map fst d))"

definition dict_get :: "(string \<times> 'v) list \<Rightarrow> string \<Rightarrow> error + 'v" where
  "dict_get d k = (case map_of d k of None \<Rightarrow> Inl (KeyError k) | Some v \<Rightarrow> Inr v)"

definition dict_del :: "(string \<times> 'v) list \<Rightarrow> string \<Rightarrow> (string \<times> 'v) list" where
  "dict_del d k = filter (\<lambda>kv. fst kv \<noteq> k) d"

definition dict_set :: "(string \<times> 'v) list \<Rightarrow> string \<Rightarrow> 'v \<Rightarrow> (string \<times> 'v) list" where
  "dict_set d k v = (k, v) # dict_del d k"

definition dict_keys :: "(string \<times> 'v) list \<Rightarrow> string list" where
  "dict_keys d = remdups (map fst d)"

section \<open>Data model\<close>

text \<open>
  \<^verbatim>\<open>django.contrib.auth.models.User\<close>, as far as the resources read it.
  An anonymous user has \<open>is_authenticated = False\<close>.
\<close>

record user =
  username :: string
  email :: string
  is_authenticated :: bool
  is_superuser :: bool

text \<open>
  The request: \<open>GET\<close> is \<open>None\<close> when the request object has no attribute
  \<^verbatim>\<open>GET\<close> (\<^verbatim>\<open>hasattr(bundle.request, 'GET')\<close> is false), otherwise the query
  parameters.
\<close>

record request =
  GET :: "(string \<rightharpoonup> string) option"
  request_user :: user

text \<open>
  The model \<^verbatim>\<open>Uploader\<close> of \<^verbatim>\<open>models/uploader.py\<close>, field by field; nullable
  columns are options. \<open>uploader_id\<close> is the primary key Django gives every model
  (\<open>None\<close> before the first save). The class declares no \<^verbatim>\<open>uuid\<close>,
  \<^verbatim>\<open>settings_updated\<close> or \<^verbatim>\<open>settings_downloaded\<close>: what \<^verbatim>\<open>api.py\<close> reads
  and writes under these names are attributes of the instance, kept with the bundle
  (\<open>obj_attrs\<close> below), and no column of a saved row.
\<close>

record uploader =
  uploader_id :: "nat option"
  name :: string
  contact_name :: string
  contact_email :: string
  instruments :: "nat list"
  user_agent_name :: "string option"
  user_agent_version :: "string option"
  user_agent_install_location :: "string option"
  os_platform :: "string option"
  os_system :: "string option"
  os_release :: "string option"
  os_version :: "string option"
  os_username :: "string option"
  machine :: "string option"
  architecture :: "string option"
  processor :: "string option"
  memory :: "string option"
  cpus :: "int option"
  disk_usage :: "string option"
  data_path :: "string option"
  default_user :: "string option"
  interface :: string
  mac_address :: string
  ipv4_address :: "string option"
  ipv6_address :: "string option"
  subnet_mask :: "string option"
  hostname :: "string option"
  wan_ip_address :: "string option"
  created_time :: "datetime option"
  updated_time :: "datetime option"

text \<open>The model \<^verbatim>\<open>UploaderStagingHost\<close>.\<close>

record uploader_staging_host =
  host :: string
  uses_hosts_allow :: bool
  uses_iptables_firewall :: bool
  uses_external_firewall :: bool

text \<open>
  The model \<^verbatim>\<open>UploaderRegistrationRequest\<close>, field by field. \<open>request_uploader\<close>
  is the foreign key to the uploader and \<open>approved_staging_host\<close> the one to the
  staging host (primary keys). The class declares no \<^verbatim>\<open>approved_storage_box\<close>.
\<close>

record uploader_registration_request =
  request_id :: "nat option"
  request_uploader :: nat
  requester_name :: string
  requester_email :: string
  requester_public_key :: string
  requester_key_fingerprint :: string
  request_time :: "datetime option"
  approved :: bool
  approved_staging_host :: "nat option"
  approved_username :: "string option"
  approver_comments :: "string option"
  approval_expiry :: "datetime option"
  approval_time :: "datetime option"

text \<open>
  Modelled from the spec: the model \<^verbatim>\<open>UploaderSetting\<close>, which \<^verbatim>\<open>api.py\<close> imports
  from \<^verbatim>\<open>models/uploader.py\<close> and which that file does not define. It is a key/value
  pair scoped to an uploader: a primary key, the foreign key to the uploader, the key
  and the value, stored as they were sent.
\<close>

record uploader_setting =
  setting_id :: "nat option"
  setting_uploader :: nat
  setting_key :: pyvalue
  setting_value :: pyvalue

text \<open>
  The objects a bundle can carry (\<^verbatim>\<open>bundle.obj\<close>), as far as the authorization
  class tells them apart with \<^verbatim>\<open>isinstance\<close>; a \<^verbatim>\<open>DataFileObject\<close> is
  represented by the primary key of its data file.
\<close>

datatype model_obj =
    UploaderObj uploader
  | UploaderSettingObj uploader_setting
  | UploaderRegistrationRequestObj uploader_registration_request
  | DataFileObjectObj nat
  | OtherObj

text \<open>
  A Tastypie bundle: the request, the object, the payload dictionary, and whether the
  attribute \<^verbatim>\<open>obj_update_done\<close> has been set on it. \<open>obj\<close> holds the fields
  the class of \<^verbatim>\<open>bundle.obj\<close> declares; \<open>obj_attrs\<close> holds the attributes that
  have been set on the instance under other names. Reading an attribute that is
  neither raises \<^verbatim>\<open>AttributeError\<close>.
\<close>

record 'o api_bundle =
  request :: request
  obj :: 'o
  obj_attrs :: "(string \<times> pyvalue) list"
  data :: "(string \<times> pyvalue) list"
  obj_update_done :: bool


section \<open>Authorization: class \<^verbatim>\<open>ACLAuthorization\<close>\<close>

text \<open>
  \<open>fmb\<close> is \<^verbatim>\<open>facilities_managed_by\<close>; the \<open>super_\<close> arguments are the methods
  of the parent class \<^verbatim>\<open>tardis.tardis_portal.api.ACLAuthorization\<close>.
\<close>

definition is_facility_manager :: "(user \<Rightarrow> nat list) \<Rightarrow> model_obj api_bundle \<Rightarrow> bool" where
  "is_facility_manager fmb b =
     (let authuser = request_user (request b);
          authenticated = is_authenticated authuser
      in authenticated \<and> length (fmb authuser) > 0)"

definition read_list ::
  "(user \<Rightarrow> nat list) \<Rightarrow> ('a list \<Rightarrow> model_obj api_bundle \<Rightarrow> 'a list) \<Rightarrow>
   'a list \<Rightarrow> model_obj api_bundle \<Rightarrow> 'a list" where
  "read_list fmb super_read_list object_list b =
     (case obj b of
        UploaderObj _ \<Rightarrow> if is_facility_manager fmb b then object_list else []
      | UploaderSettingObj _ \<Rightarrow> if is_facility_manager fmb b then object_list else []
      | UploaderRegistrationRequestObj _ \<Rightarrow>
          if is_facility_manager fmb b then object_list else []
      | _ \<Rightarrow> super_read_list object_list b)"

definition read_detail ::
  "(user \<Rightarrow> nat list) \<Rightarrow> (request \<Rightarrow> nat \<Rightarrow> bool) \<Rightarrow> (model_obj api_bundle \<Rightarrow> bool) \<Rightarrow>
   model_obj api_bundle \<Rightarrow> bool" where
  "read_detail fmb has_datafile_access super_read_detail b =
     (if is_authenticated (request_user (request b)) \<and> is_superuser (request_user (request b))
      then True
      else case obj b of
        UploaderObj _ \<Rightarrow> is_facility_manager fmb b
      | UploaderRegistrationRequestObj _ \<Rightarrow> is_facility_manager fmb b
      | DataFileObjectObj datafile_id \<Rightarrow> has_datafile_access (request b) datafile_id
      | _ \<Rightarrow> super_read_detail b)"

definition create_detail ::
  "(user \<Rightarrow> nat list) \<Rightarrow> (model_obj api_bundle \<Rightarrow> bool) \<Rightarrow> model_obj api_bundle \<Rightarrow> bool" where
  "create_detail fmb super_create_detail b =
     (case obj b of
        UploaderObj _ \<Rightarrow> is_facility_manager fmb b
      | UploaderRegistrationRequestObj _ \<Rightarrow> is_facility_manager fmb b
      | UploaderSettingObj _ \<Rightarrow> is_facility_manager fmb b
      | _ \<Rightarrow> super_create_detail b)"






section \<open>The database and the object-relational mapper\<close>

text \<open>
  The tables of the host application that \<^verbatim>\<open>obj_get_list\<close> queries: schemas,
  experiments, experiment parameter sets and their parameters. A foreign key is the
  primary key of the row it refers to; \<open>parameter_name\<close> is \<^verbatim>\<open>exp_param.name.name\<close>.
\<close>

record schema =
  schema_id :: nat
  namespace :: string

record experiment_model =
  experiment_id :: nat
  title :: string

record experiment_parameterset =
  parameterset_id :: nat
  parameterset_schema :: nat
  parameterset_experiment :: nat

record experiment_parameter =
  parameter_parameterset :: nat
  parameter_name :: string
  string_value :: string

text \<open>A table is the list of its rows, in the order a query without ordering scans them.\<close>

record database =
  users :: "user list"
  uploaders :: "uploader list"
  uploader_settings :: "uploader_setting list"
  uploader_registration_requests :: "uploader_registration_request list"
  schemas :: "schema list"
  experiments :: "experiment_model list"
  parametersets :: "experiment_parameterset list"
  parameters :: "experiment_parameter list"

text \<open>
  \<^verbatim>\<open>Model.objects.get(...)\<close>: the single row that satisfies the condition;
  \<^verbatim>\<open>DoesNotExist\<close> when there is none, \<^verbatim>\<open>MultipleObjectsReturned\<close> when there
  are several.
\<close>

definition objects_get :: "('a \<Rightarrow> bool) \<Rightarrow> 'a list \<Rightarrow> error + 'a" where
  "objects_get P rows =
     (case filter P rows of
        [] \<Rightarrow> Inl DoesNotExist
      | [x] \<Rightarrow> Inr x
      | _ \<Rightarrow> Inl MultipleObjectsReturned)"

text \<open>\<^verbatim>\<open>queryset.first()\<close>.\<close>

definition objects_first :: "'a list \<Rightarrow> 'a option" where
  "objects_first rows = (case rows of [] \<Rightarrow> None | x # _ \<Rightarrow> Some x)"

text \<open>
  \<^verbatim>\<open>Model.save()\<close>. A row without primary key is inserted under a fresh one; a row
  with a primary key replaces the stored row of that key, or is inserted when there is
  none. \<open>key\<close> is a uniqueness constraint the model declares (\<^verbatim>\<open>unique=True\<close>,
  \<^verbatim>\<open>unique_together\<close>): the database refuses a row whose key another row already
  has, which Django raises as \<^verbatim>\<open>IntegrityError\<close>.
\<close>

definition next_id :: "nat option list \<Rightarrow> nat" where
  "next_id pks = Suc (fold (\<lambda>pk m. case pk of None \<Rightarrow> m | Some i \<Rightarrow> max i m) pks 0)"

definition violates_unique :: "('a \<Rightarrow> nat option) \<Rightarrow> ('a \<Rightarrow> 'k) \<Rightarrow> 'a list \<Rightarrow> 'a \<Rightarrow> bool" where
  "violates_unique pk key rows r = list_ex (\<lambda>r'. pk r' \<noteq> pk r \<and> key r' = key r) rows"

definition store_row ::
  "('a \<Rightarrow> nat option) \<Rightarrow> (nat \<Rightarrow> 'a \<Rightarrow> 'a) \<Rightarrow> 'a list \<Rightarrow> 'a \<Rightarrow> 'a list \<times> 'a" where
  "store_row pk set_pk rows r =
     (case pk r of
        None \<Rightarrow> (let r' = set_pk (next_id (map pk rows)) r in (rows @ [r'], r'))
      | Some i \<Rightarrow>
          if list_ex (\<lambda>r'. pk r' = Some i) rows
          then (map (\<lambda>r'. if pk r' = Some i then r else r') rows, r)
          else (rows @ [r], r))"

definition model_save ::
  "('a \<Rightarrow> nat option) \<Rightarrow> (nat \<Rightarrow> 'a \<Rightarrow> 'a) \<Rightarrow> ('a \<Rightarrow> 'k) \<Rightarrow> 'a list \<Rightarrow> 'a \<Rightarrow>
   error + ('a list \<times> 'a)" where
  "model_save pk set_pk key rows r =
     (if violates_unique pk key rows r
      then Inl (IntegrityError ''duplicate key value violates unique constraint'')
      else Inr (store_row pk set_pk rows r))"

text \<open>
  \<^verbatim>\<open>Uploader.save()\<close>: the model declares \<^verbatim>\<open>mac_address\<close> with \<^verbatim>\<open>unique=True\<close>.
\<close>

definition save_uploader :: "uploader list \<Rightarrow> uploader \<Rightarrow> error + (uploader list \<times> uploader)" where
  "save_uploader rows u =
     model_save uploader_id (\<lambda>i r. r\<lparr>uploader_id := Some i\<rparr>) mac_address rows u"

text \<open>
  \<^verbatim>\<open>UploaderRegistrationRequest.save()\<close>: the model declares
  \<^verbatim>\<open>unique_together = ['uploader', 'requester_key_fingerprint']\<close>.
\<close>

definition unique_together :: "uploader_registration_request \<Rightarrow> nat \<times> string" where
  "unique_together r = (request_uploader r, requester_key_fingerprint r)"

definition save_registration_request ::
  "uploader_registration_request list \<Rightarrow> uploader_registration_request \<Rightarrow>
   error + (uploader_registration_request list \<times> uploader_registration_request)" where
  "save_registration_request rows r =
     model_save request_id (\<lambda>i x. x\<lparr>request_id := Some i\<rparr>) unique_together rows r"

text \<open>\<^verbatim>\<open>Model.delete()\<close> of a registration request.\<close>

definition delete_registration_request ::
  "uploader_registration_request list \<Rightarrow> nat \<Rightarrow> uploader_registration_request list" where
  "delete_registration_request rows i = filter (\<lambda>r. request_id r \<noteq> Some i) rows"

text \<open>
  The tables of registration requests that the operations can produce, starting from
  the empty table.
\<close>

inductive reachable_requests :: "uploader_registration_request list \<Rightarrow> bool" where
  empty_table: "reachable_requests []"
| saved: "reachable_requests rows \<Longrightarrow> save_registration_request rows r = Inr (rows', r') \<Longrightarrow>
          reachable_requests rows'"
| deleted: "reachable_requests rows \<Longrightarrow> reachable_requests (delete_registration_request rows i)"


text \<open>
  What the database keeps true of a table: every stored row has a primary key, and no
  two rows share one.
\<close>

definition primary_keys_ok :: "('a \<Rightarrow> nat option) \<Rightarrow> 'a list \<Rightarrow> bool" where
  "primary_keys_ok pk rows = (list_all (\<lambda>r. pk r \<noteq> None) rows \<and> distinct (map pk rows))"

text \<open>
  Modelled from the spec: \<^verbatim>\<open>UploaderSetting.save()\<close>, of the model that
  \<^verbatim>\<open>models/uploader.py\<close> does not define; the spec gives it no constraint, so the save
  cannot be refused.
\<close>

definition save_uploader_setting ::
  "uploader_setting list \<Rightarrow> uploader_setting \<Rightarrow> uploader_setting list" where
  "save_uploader_setting rows s =
     fst (store_row setting_id (\<lambda>i r. r\<lparr>setting_id := Some i\<rparr>) rows s)"

section \<open>Class \<^verbatim>\<open>UploaderAppResource\<close>\<close>

definition accessible_keys :: "string list" where
  "accessible_keys = [''id'', ''resource_uri'', ''name'', ''settings'',
                      ''settings_updated'', ''settings_downloaded'']"

text \<open>
  \<^verbatim>\<open>dehydrate\<close>: the loop runs over the list of keys taken before it starts and
  deletes from the dictionary every key that is not accessible.
\<close>

fun dehydrate_keys :: "string list \<Rightarrow> (string \<times> pyvalue) list \<Rightarrow> (string \<times> pyvalue) list" where
  "dehydrate_keys [] d = d"
| "dehydrate_keys (key # keys) d =
     dehydrate_keys keys (if key \<notin> set accessible_keys then dict_del d key else d)"

definition dehydrate :: "'o api_bundle \<Rightarrow> 'o api_bundle" where
  "dehydrate b = b\<lparr>data := dehydrate_keys (dict_keys (data b)) (data b)\<rparr>"

text \<open>
  Iterating over a payload value with \<^verbatim>\<open>for\<close> and subscripting it with a string:
  a list yields its elements, a dictionary its keys, a string its characters; only a
  dictionary can be subscripted with a string.
\<close>

definition py_iter :: "pyvalue \<Rightarrow> error + pyvalue list" where
  "py_iter v =
     (case v of
        PList xs \<Rightarrow> Inr xs
      | PDict d \<Rightarrow> Inr (map PStr (dict_keys d))
      | PStr s \<Rightarrow> Inr (map (\<lambda>c. PStr [c]) s)
      | _ \<Rightarrow> Inl TypeError)"

definition py_getitem :: "pyvalue \<Rightarrow> string \<Rightarrow> error + pyvalue" where
  "py_getitem v k = (case v of PDict d \<Rightarrow> dict_get d k | _ \<Rightarrow> Inl TypeError)"

text \<open>
  The body of the loop of \<^verbatim>\<open>hydrate_m2m\<close> for one entry of the payload's settings:
  the stored setting of this uploader and key gets the new value, and only
  \<^verbatim>\<open>DoesNotExist\<close> is caught, to create the setting; then the setting is saved.
\<close>

definition upsert_setting :: "nat \<Rightarrow> pyvalue \<Rightarrow> uploader_setting list \<Rightarrow> error + uploader_setting list" where
  "upsert_setting uploader_pk setting rows =
     (case py_getitem setting ''key'' of
        Inl e \<Rightarrow> Inl e
      | Inr k \<Rightarrow>
          (case objects_get (\<lambda>s. setting_uploader s = uploader_pk \<and> setting_key s = k) rows of
             Inr uploader_setting \<Rightarrow>
               (case py_getitem setting ''value'' of
                  Inl e \<Rightarrow> Inl e
                | Inr v \<Rightarrow> Inr (save_uploader_setting rows (uploader_setting\<lparr>setting_value := v\<rparr>)))
           | Inl DoesNotExist \<Rightarrow>
               (case py_getitem setting ''value'' of
                  Inl e \<Rightarrow> Inl e
                | Inr v \<Rightarrow>
                    Inr (save_uploader_setting rows
                      \<lparr>setting_id = None, setting_uploader = uploader_pk,
                       setting_key = k, setting_value = v\<rparr>))
           | Inl e \<Rightarrow> Inl e))"

text \<open>
  The loop: an exception leaves the settings saved so far in the table.
\<close>

fun upsert_settings ::
  "nat \<Rightarrow> pyvalue list \<Rightarrow> uploader_setting list \<Rightarrow> error option \<times> uploader_setting list" where
  "upsert_settings uploader_pk [] rows = (None, rows)"
| "upsert_settings uploader_pk (setting # settings) rows =
     (case upsert_setting uploader_pk setting rows of
        Inl e \<Rightarrow> (Some e, rows)
      | Inr rows' \<Rightarrow> upsert_settings uploader_pk settings rows')"

text \<open>
  \<^verbatim>\<open>hydrate_m2m\<close>. \<^verbatim>\<open>getattr(bundle.obj, 'id', False)\<close> is true for a primary key
  that is set and not zero. The result is the bundle or the exception, together with
  the database as the call leaves it; \<open>now\<close> is the reading of \<^verbatim>\<open>datetime.now()\<close>
  and \<open>super_hydrate_m2m\<close> the method of the parent class. The assignment to
  \<^verbatim>\<open>bundle.obj.settings_updated\<close> sets an attribute of the instance, and
  \<^verbatim>\<open>bundle.obj.save()\<close> stores the fields of the class.
\<close>

definition hydrate_m2m ::
  "datetime \<Rightarrow>
   (database \<Rightarrow> uploader api_bundle \<Rightarrow> (error + uploader api_bundle) \<times> database) \<Rightarrow>
   database \<Rightarrow> uploader api_bundle \<Rightarrow> (error + uploader api_bundle) \<times> database" where
  "hydrate_m2m now super_hydrate_m2m db b =
     (case uploader_id (obj b) of
        None \<Rightarrow> super_hydrate_m2m db b
      | Some uploader_pk \<Rightarrow>
          if uploader_pk \<noteq> 0 \<and> dict_has (data b) ''settings''
          then
            (case dict_get (data b) ''settings'' of
               Inl e \<Rightarrow> (Inl e, db)
             | Inr settings \<Rightarrow>
                 (case py_iter settings of
                    Inl e \<Rightarrow> (Inl e, db)
                  | Inr entries \<Rightarrow>
                      (case upsert_settings uploader_pk entries (uploader_settings db) of
                         (Some e, rows) \<Rightarrow> (Inl e, db\<lparr>uploader_settings := rows\<rparr>)
                       | (None, rows) \<Rightarrow>
                           (let db1 = db\<lparr>uploader_settings := rows\<rparr>;
                                b1 = b\<lparr>data := dict_del (data b) ''settings''\<rparr>;
                                b2 = b1\<lparr>obj_attrs := dict_set (obj_attrs b1) ''settings_updated''
                                                         (PTime now)\<rparr>
                            in case save_uploader (uploaders db1) (obj b2) of
                                 Inl e \<Rightarrow> (Inl e, db1)
                               | Inr (rows', u) \<Rightarrow>
                                   super_hydrate_m2m (db1\<lparr>uploaders := rows'\<rparr>) (b2\<lparr>obj := u\<rparr>)))))
          else super_hydrate_m2m db b)"

text \<open>
  \<^verbatim>\<open>obj_create\<close>: \<open>now1\<close> and \<open>now2\<close> are the two readings of
  \<^verbatim>\<open>datetime.now()\<close>, \<open>get_ip\<close> is \<^verbatim>\<open>ipware.ip.get_ip\<close> and
  \<open>super_obj_create\<close> the method of the parent class, whose result is returned.
\<close>

definition uploader_obj_create ::
  "datetime \<Rightarrow> datetime \<Rightarrow> (request \<Rightarrow> string option) \<Rightarrow> (uploader api_bundle \<Rightarrow> 'r) \<Rightarrow>
   uploader api_bundle \<Rightarrow> 'r" where
  "uploader_obj_create now1 now2 get_ip super_obj_create b =
     (let b1 = b\<lparr>data := dict_set (data b) ''created_time'' (PTime now1)\<rparr>;
          b2 = b1\<lparr>data := dict_set (data b1) ''updated_time'' (PTime now2)\<rparr>;
          b3 = (case get_ip (request b2) of
                  None \<Rightarrow> b2
                | Some ip \<Rightarrow> b2\<lparr>data := dict_set (data b2) ''wan_ip_address'' (PStr ip)\<rparr>)
      in super_obj_create b3)"

text \<open>
  \<^verbatim>\<open>obj_update\<close>: a bundle that already carries \<^verbatim>\<open>obj_update_done\<close> makes the
  method return \<^verbatim>\<open>None\<close> at once.
\<close>

definition uploader_obj_update ::
  "datetime \<Rightarrow> (request \<Rightarrow> string option) \<Rightarrow>
   (uploader api_bundle \<Rightarrow> error + uploader api_bundle) \<Rightarrow>
   uploader api_bundle \<Rightarrow> error + uploader api_bundle option" where
  "uploader_obj_update now get_ip super_obj_update b =
     (if obj_update_done b then Inr None
      else
        (let b1 = b\<lparr>data := dict_set (data b) ''updated_time'' (PTime now)\<rparr>;
             b2 = (case get_ip (request b1) of
                     None \<Rightarrow> b1
                   | Some ip \<Rightarrow> b1\<lparr>data := dict_set (data b1) ''wan_ip_address'' (PStr ip)\<rparr>)
         in case super_obj_update b2 of
              Inl e \<Rightarrow> Inl e
            | Inr b3 \<Rightarrow> Inr (Some (b3\<lparr>obj_update_done := True\<rparr>))))"

section \<open>Class \<^verbatim>\<open>UploaderRegistrationRequestAppResource\<close>\<close>

text \<open>\<^verbatim>\<open>hydrate\<close>: the parent's method first, then the time stamp.\<close>

definition registration_request_hydrate ::
  "datetime \<Rightarrow>
   (uploader_registration_request api_bundle \<Rightarrow> error + uploader_registration_request api_bundle) \<Rightarrow>
   uploader_registration_request api_bundle \<Rightarrow> error + uploader_registration_request api_bundle" where
  "registration_request_hydrate now super_hydrate b =
     (case super_hydrate b of
        Inl e \<Rightarrow> Inl e
      | Inr b1 \<Rightarrow> Inr (b1\<lparr>data := dict_set (data b1) ''request_time'' (PTime now)\<rparr>))"

section \<open>Class \<^verbatim>\<open>ExperimentAppResource\<close>\<close>

text \<open>
  The guess of the folder structure at the head of \<^verbatim>\<open>obj_get_list\<close>: the local
  variable \<^verbatim>\<open>folder_structure\<close> stays \<^verbatim>\<open>None\<close> when the request has no
  \<^verbatim>\<open>GET\<close> or names a folder structure itself.
\<close>

definition guess_from_user_folder :: "(string \<rightharpoonup> string) \<Rightarrow> string" where
  "guess_from_user_folder g =
     (case g ''user_folder_name'' of
        Some user_folder_name \<Rightarrow>
          if CHR ''@'' \<in> set user_folder_name then ''Email / ...'' else ''Username / ...''
      | None \<Rightarrow> ''Username / ...'')"

definition guess_folder_structure :: "(string \<rightharpoonup> string) option \<Rightarrow> string option" where
  "guess_folder_structure get =
     (case get of
        None \<Rightarrow> None
      | Some g \<Rightarrow>
          (case g ''folder_structure'' of
             Some _ \<Rightarrow> None
           | None \<Rightarrow>
               (case g ''group_folder_name'' of
                  Some group_folder_name \<Rightarrow>
                    if strip group_folder_name \<noteq> '''' then Some ''User Group / ...''
                    else Some (guess_from_user_folder g)
                | None \<Rightarrow> Some (guess_from_user_folder g))))"

text \<open>
  The user to match is a \<^verbatim>\<open>User\<close> row or an instance of the local class
  \<^verbatim>\<open>UnknownUser\<close>, whose constructor arguments both default to \<^verbatim>\<open>'UNKNOWN'\<close>.
\<close>

datatype user_to_match = KnownUser user | UnknownUser string string

fun match_username :: "user_to_match \<Rightarrow> string" where
  "match_username (KnownUser u) = username u"
| "match_username (UnknownUser n e) = n"

fun match_email :: "user_to_match \<Rightarrow> string" where
  "match_email (KnownUser u) = email u"
| "match_email (UnknownUser n e) = e"

text \<open>
  A local name of the function is bound or not at the place that reads it; reading an
  unbound one raises \<^verbatim>\<open>UnboundLocalError\<close>.
\<close>

definition read_local :: "string \<Rightarrow> 'a option \<Rightarrow> error + 'a" where
  "read_local var v = (case v of None \<Rightarrow> Inl (UnboundLocalError var) | Some x \<Rightarrow> Inr x)"

text \<open>
  The lookup of the user to match (the body of \<^verbatim>\<open>if need_to_match_user:\<close>, the same
  text in both branches). \<open>unknown_user_class\<close> is the local name \<^verbatim>\<open>UnknownUser\<close>:
  the class where the \<^verbatim>\<open>class\<close> statement has run, unbound where it has not.
  The result is the local variable \<^verbatim>\<open>user_to_match\<close>, unbound when neither prefix
  applies.
\<close>

definition lookup_user_to_match ::
  "(string \<Rightarrow> string \<Rightarrow> user_to_match) option \<Rightarrow> user list \<Rightarrow> string \<Rightarrow> string \<Rightarrow>
   error + user_to_match option" where
  "lookup_user_to_match unknown_user_class rows folder_structure user_folder_name =
     (if startswith folder_structure ''Username /'' then
        (case objects_get (\<lambda>u. username u = user_folder_name) rows of
           Inr u \<Rightarrow> Inr (Some (KnownUser u))
         | Inl DoesNotExist \<Rightarrow>
             (case read_local ''UnknownUser'' unknown_user_class of
                Inl e \<Rightarrow> Inl e
              | Inr cls \<Rightarrow> Inr (Some (cls user_folder_name ''UNKNOWN'')))
         | Inl e \<Rightarrow> Inl e)
      else if startswith folder_structure ''Email /'' then
        (case objects_get (\<lambda>u. lower (email u) = lower user_folder_name) rows of
           Inr u \<Rightarrow> Inr (Some (KnownUser u))
         | Inl DoesNotExist \<Rightarrow>
             (case read_local ''UnknownUser'' unknown_user_class of
                Inl e \<Rightarrow> Inl e
              | Inr cls \<Rightarrow> Inr (Some (cls ''UNKNOWN'' user_folder_name)))
         | Inl e \<Rightarrow> Inl e)
      else Inr None)"

text \<open>
  The test of one parameter against the user to match; \<^verbatim>\<open>user_to_match\<close> is read
  only when the two conjuncts before it hold.
\<close>

definition user_param_matches ::
  "bool \<Rightarrow> user_to_match option \<Rightarrow> experiment_parameter \<Rightarrow> error + bool" where
  "user_param_matches need_to_match_user user_to_match exp_param =
     (if need_to_match_user \<and> parameter_name exp_param = ''user_folder_name'' then
        (case read_local ''user_to_match'' user_to_match of
           Inl e \<Rightarrow> Inl e
         | Inr u \<Rightarrow>
             Inr (lower (string_value exp_param) = lower (match_username u) \<or>
                  lower (string_value exp_param) = lower (match_email u)))
      else Inr False)"

text \<open>
  The inner loop of the title branch over the parameters of one parameter set; the
  accumulator is \<^verbatim>\<open>(matched_user, matched_group)\<close>.
\<close>

fun title_scan_params ::
  "bool \<Rightarrow> bool \<Rightarrow> user_to_match option \<Rightarrow> string option \<Rightarrow> experiment_parameter list \<Rightarrow>
   bool \<times> bool \<Rightarrow> error + (bool \<times> bool)" where
  "title_scan_params need_to_match_user need_to_match_group user_to_match group_folder_name
     [] acc = Inr acc"
| "title_scan_params need_to_match_user need_to_match_group user_to_match group_folder_name
     (exp_param # exp_params) (matched_user, matched_group) =
     (case user_param_matches need_to_match_user user_to_match exp_param of
        Inl e \<Rightarrow> Inl e
      | Inr mu \<Rightarrow>
          (case (if need_to_match_group \<and> parameter_name exp_param = ''group_folder_name''
                 then (case read_local ''group_folder_name'' group_folder_name of
                         Inl e \<Rightarrow> Inl e
                       | Inr g \<Rightarrow> Inr (string_value exp_param = g))
                 else Inr False) of
             Inl e \<Rightarrow> Inl e
           | Inr mg \<Rightarrow>
               title_scan_params need_to_match_user need_to_match_group user_to_match
                 group_folder_name exp_params
                 (if mu then True else matched_user, if mg then True else matched_group)))"

text \<open>
  The experiment a parameter set belongs to and the check that the requesting user may
  see it: \<^verbatim>\<open>exp_pset.experiment.id\<close>, the query by primary key, its first element
  and the membership in \<^verbatim>\<open>Experiment.safe.all(user)\<close> (\<open>safe_all\<close>), which compares
  primary keys. \<open>None\<close> is the case in which the loop goes on.
\<close>

definition accessible_exp_list ::
  "(user \<Rightarrow> experiment_model list) \<Rightarrow> database \<Rightarrow> user \<Rightarrow> experiment_parameterset \<Rightarrow>
   error + experiment_model list option" where
  "accessible_exp_list safe_all db usr exp_pset =
     (case objects_get (\<lambda>e. experiment_id e = parameterset_experiment exp_pset) (experiments db) of
        Inl e \<Rightarrow> Inl e
      | Inr exp \<Rightarrow>
          (let exp_list = filter (\<lambda>e. experiment_id e = experiment_id exp) (experiments db)
           in case exp_list of
                [] \<Rightarrow> Inl IndexError
              | e0 # _ \<Rightarrow>
                  if experiment_id e0 \<in> set (map experiment_id (safe_all usr))
                  then Inr (Some exp_list)
                  else Inr None))"

text \<open>The outer loop of the title branch over the parameter sets.\<close>

fun title_scan_psets ::
  "(user \<Rightarrow> experiment_model list) \<Rightarrow> database \<Rightarrow> user \<Rightarrow> bool \<Rightarrow> bool \<Rightarrow>
   user_to_match option \<Rightarrow> string option \<Rightarrow> experiment_parameterset list \<Rightarrow>
   error + experiment_model list" where
  "title_scan_psets safe_all db usr need_to_match_user need_to_match_group user_to_match
     group_folder_name [] = Inr []"
| "title_scan_psets safe_all db usr need_to_match_user need_to_match_group user_to_match
     group_folder_name (exp_pset # exp_psets) =
     (let exp_params =
            filter (\<lambda>p. parameter_parameterset p = parameterset_id exp_pset) (parameters db)
      in case title_scan_params need_to_match_user need_to_match_group user_to_match
                group_folder_name exp_params (False, False) of
           Inl e \<Rightarrow> Inl e
         | Inr (matched_user, matched_group) \<Rightarrow>
             if (need_to_match_user \<and> matched_user) \<or> (need_to_match_group \<and> matched_group) \<or>
                (\<not> need_to_match_user \<and> \<not> need_to_match_group)
             then
               (case accessible_exp_list safe_all db usr exp_pset of
                  Inl e \<Rightarrow> Inl e
                | Inr (Some exp_list) \<Rightarrow> Inr exp_list
                | Inr None \<Rightarrow>
                    title_scan_psets safe_all db usr need_to_match_user need_to_match_group
                      user_to_match group_folder_name exp_psets)
             else
               title_scan_psets safe_all db usr need_to_match_user need_to_match_group
                 user_to_match group_folder_name exp_psets)"

definition default_experiment_namespace :: string where
  "default_experiment_namespace = ''http://mytardis.org/schemas/mydata/defaultexperiment''"

text \<open>
  The prelude both branches share in the source text: the folder structure named by
  the request replaces the guess, \<^verbatim>\<open>startswith\<close> on \<^verbatim>\<open>None\<close> raises
  \<^verbatim>\<open>AttributeError\<close>, the folder names are read from \<^verbatim>\<open>GET\<close> (\<^verbatim>\<open>KeyError\<close> when
  absent) and the schema of default experiments is fetched. The result holds
  \<^verbatim>\<open>need_to_match_user\<close>, \<^verbatim>\<open>need_to_match_group\<close>, \<^verbatim>\<open>user_to_match\<close>,
  \<^verbatim>\<open>group_folder_name\<close> and the schema.
\<close>

definition folder_prelude ::
  "(string \<Rightarrow> string \<Rightarrow> user_to_match) option \<Rightarrow> database \<Rightarrow> (string \<rightharpoonup> string) \<Rightarrow>
   string option \<Rightarrow> error + (bool \<times> bool \<times> user_to_match option \<times> string option \<times> schema)" where
  "folder_prelude unknown_user_class db g guessed =
     (case (case g ''folder_structure'' of Some fs \<Rightarrow> Some fs | None \<Rightarrow> guessed) of
        None \<Rightarrow> Inl (AttributeError ''startswith'')
      | Some folder_structure \<Rightarrow>
          (let need_to_match_user = (startswith folder_structure ''Username /'' \<or>
                                     startswith folder_structure ''Email /'');
               need_to_match_group = startswith folder_structure ''User Group /''
           in case (if need_to_match_user
                    then (case g ''user_folder_name'' of
                            None \<Rightarrow> Inl (KeyError ''user_folder_name'')
                          | Some user_folder_name \<Rightarrow>
                              lookup_user_to_match unknown_user_class (users db)
                                folder_structure user_folder_name)
                    else Inr None) of
                Inl e \<Rightarrow> Inl e
              | Inr user_to_match \<Rightarrow>
                  (case (if need_to_match_group
                         then (case g ''group_folder_name'' of
                                 None \<Rightarrow> Inl (KeyError ''group_folder_name'')
                               | Some group_folder_name \<Rightarrow> Inr (Some group_folder_name))
                         else Inr None) of
                     Inl e \<Rightarrow> Inl e
                   | Inr group_folder_name \<Rightarrow>
                       (case objects_get (\<lambda>s. namespace s = default_experiment_namespace)
                               (schemas db) of
                          Inl e \<Rightarrow> Inl e
                        | Inr mydata_default_exp_schema \<Rightarrow>
                            Inr (need_to_match_user, need_to_match_group, user_to_match,
                                 group_folder_name, mydata_default_exp_schema)))))"

text \<open>
  The title branch: the class \<^verbatim>\<open>UnknownUser\<close> is defined in it, and the parameter
  sets scanned are those of the schema whose experiment has the title.
\<close>

definition title_branch ::
  "(user \<Rightarrow> experiment_model list) \<Rightarrow> database \<Rightarrow> user \<Rightarrow> (string \<rightharpoonup> string) \<Rightarrow>
   string option \<Rightarrow> error + experiment_model list" where
  "title_branch safe_all db usr g guessed =
     (case g ''title'' of
        None \<Rightarrow> Inl (KeyError ''title'')
      | Some t \<Rightarrow>
          (case folder_prelude (Some UnknownUser) db g guessed of
             Inl e \<Rightarrow> Inl e
           | Inr (need_to_match_user, need_to_match_group, user_to_match, group_folder_name,
                  mydata_default_exp_schema) \<Rightarrow>
               (let exp_psets =
                      filter (\<lambda>p. parameterset_schema p = schema_id mydata_default_exp_schema \<and>
                                   list_ex (\<lambda>e. experiment_id e = parameterset_experiment p \<and>
                                                 title e = t) (experiments db))
                        (parametersets db)
                in title_scan_psets safe_all db usr need_to_match_user need_to_match_group
                     user_to_match group_folder_name exp_psets)))"

text \<open>
  The inner loop of the uploader branch; the accumulator is
  \<^verbatim>\<open>(matched_uploader_uuid, matched_user, matched_group)\<close>. The test of the group
  folder name reads \<^verbatim>\<open>group_folder_name\<close> for every parameter of that name.
\<close>

fun uploader_scan_params ::
  "string \<Rightarrow> bool \<Rightarrow> user_to_match option \<Rightarrow> string option \<Rightarrow> experiment_parameter list \<Rightarrow>
   bool \<times> bool \<times> bool \<Rightarrow> error + (bool \<times> bool \<times> bool)" where
  "uploader_scan_params uploader_uuid need_to_match_user user_to_match group_folder_name
     [] acc = Inr acc"
| "uploader_scan_params uploader_uuid need_to_match_user user_to_match group_folder_name
     (exp_param # exp_params) (matched_uploader_uuid, matched_user, matched_group) =
     (let mup = (parameter_name exp_param = ''uploader'' \<and>
                 string_value exp_param = uploader_uuid)
      in case user_param_matches need_to_match_user user_to_match exp_param of
           Inl e \<Rightarrow> Inl e
         | Inr mu \<Rightarrow>
             (case (if parameter_name exp_param = ''group_folder_name''
                    then (case read_local ''group_folder_name'' group_folder_name of
                            Inl e \<Rightarrow> Inl e
                          | Inr g \<Rightarrow> Inr (string_value exp_param = g))
                    else Inr False) of
                Inl e \<Rightarrow> Inl e
              | Inr mg \<Rightarrow>
                  uploader_scan_params uploader_uuid need_to_match_user user_to_match
                    group_folder_name exp_params
                    (if mup then True else matched_uploader_uuid,
                     if mu then True else matched_user,
                     if mg then True else matched_group)))"

text \<open>The outer loop of the uploader branch.\<close>

fun uploader_scan_psets ::
  "(user \<Rightarrow> experiment_model list) \<Rightarrow> database \<Rightarrow> user \<Rightarrow> string \<Rightarrow> bool \<Rightarrow> bool \<Rightarrow>
   user_to_match option \<Rightarrow> string option \<Rightarrow> experiment_parameterset list \<Rightarrow>
   error + experiment_model list" where
  "uploader_scan_psets safe_all db usr uploader_uuid need_to_match_user need_to_match_group
     user_to_match group_folder_name [] = Inr []"
| "uploader_scan_psets safe_all db usr uploader_uuid need_to_match_user need_to_match_group
     user_to_match group_folder_name (exp_pset # exp_psets) =
     (let exp_params =
            filter (\<lambda>p. parameter_parameterset p = parameterset_id exp_pset) (parameters db)
      in case uploader_scan_params uploader_uuid need_to_match_user user_to_match
                group_folder_name exp_params (False, False, False) of
           Inl e \<Rightarrow> Inl e
         | Inr (matched_uploader_uuid, matched_user, matched_group) \<Rightarrow>
             if matched_uploader_uuid \<and>
                (need_to_match_user \<and> matched_user \<or> need_to_match_group \<and> matched_group)
             then
               (case accessible_exp_list safe_all db usr exp_pset of
                  Inl e \<Rightarrow> Inl e
                | Inr (Some exp_list) \<Rightarrow> Inr exp_list
                | Inr None \<Rightarrow>
                    uploader_scan_psets safe_all db usr uploader_uuid need_to_match_user
                      need_to_match_group user_to_match group_folder_name exp_psets)
             else
               uploader_scan_psets safe_all db usr uploader_uuid need_to_match_user
                 need_to_match_group user_to_match group_folder_name exp_psets)"

text \<open>
  The uploader branch. The \<^verbatim>\<open>class UnknownUser\<close> statement stands in the title
  branch, which always returns, so here the local name \<^verbatim>\<open>UnknownUser\<close> is unbound.
  All parameter sets of the schema are scanned.
\<close>

definition uploader_branch ::
  "(user \<Rightarrow> experiment_model list) \<Rightarrow> database \<Rightarrow> user \<Rightarrow> (string \<rightharpoonup> string) \<Rightarrow>
   string option \<Rightarrow> error + experiment_model list" where
  "uploader_branch safe_all db usr g guessed =
     (case g ''uploader'' of
        None \<Rightarrow> Inl (KeyError ''uploader'')
      | Some uploader_uuid \<Rightarrow>
          (case folder_prelude None db g guessed of
             Inl e \<Rightarrow> Inl e
           | Inr (need_to_match_user, need_to_match_group, user_to_match, group_folder_name,
                  mydata_default_exp_schema) \<Rightarrow>
               (let exp_psets =
                      filter (\<lambda>p. parameterset_schema p = schema_id mydata_default_exp_schema)
                        (parametersets db)
                in uploader_scan_psets safe_all db usr uploader_uuid need_to_match_user
                     need_to_match_group user_to_match group_folder_name exp_psets)))"

text \<open>
  \<^verbatim>\<open>obj_get_list\<close>: the title branch, else the uploader branch, else the method of
  the parent class (\<open>super_obj_get_list\<close>).
\<close>

definition has_folder_name :: "(string \<rightharpoonup> string) \<Rightarrow> bool" where
  "has_folder_name g = (g ''user_folder_name'' \<noteq> None \<or> g ''group_folder_name'' \<noteq> None)"

definition obj_get_list ::
  "(user \<Rightarrow> experiment_model list) \<Rightarrow> ('o api_bundle \<Rightarrow> error + experiment_model list) \<Rightarrow>
   database \<Rightarrow> 'o api_bundle \<Rightarrow> error + experiment_model list" where
  "obj_get_list safe_all super_obj_get_list db b =
     (let folder_structure = guess_folder_structure (GET (request b))
      in case GET (request b) of
           None \<Rightarrow> super_obj_get_list b
         | Some g \<Rightarrow>
             if g ''title'' \<noteq> None \<and> has_folder_name g
             then title_branch safe_all db (request_user (request b)) g folder_structure
             else if g ''uploader'' \<noteq> None \<and> has_folder_name g
             then uploader_branch safe_all db (request_user (request b)) g folder_structure
             else super_obj_get_list b)"

section \<open>Class \<^verbatim>\<open>DataFileAppResource\<close>\<close>

text \<open>
  A data file, as far as \<^verbatim>\<open>obj_create\<close> reads it: its primary key and
  \<^verbatim>\<open>datafile.dataset.instrument\<close> (the primary key of the instrument, if any).
\<close>

record datafile =
  datafile_id :: nat
  dataset_instrument :: "nat option"

text \<open>Truth value of a payload value (\<^verbatim>\<open>not bundle.data['replicas']\<close>).\<close>

definition py_truthy :: "pyvalue \<Rightarrow> bool" where
  "py_truthy v =
     (case v of
        PNone \<Rightarrow> False
      | PBool b \<Rightarrow> b
      | PInt i \<Rightarrow> i \<noteq> 0
      | PStr s \<Rightarrow> s \<noteq> []
      | PTime _ \<Rightarrow> True
      | PList xs \<Rightarrow> xs \<noteq> []
      | PDict d \<Rightarrow> d \<noteq> [])"

text \<open>
  The body of the \<^verbatim>\<open>try\<close> that looks for the approved storage box of the
  uploader: by uploader UUID and key fingerprint when the payload names both, else by
  the client's address and the instrument of the data file. The query
  \<^verbatim>\<open>Uploader.objects.get(uuid=...)\<close> names a field the class \<^verbatim>\<open>Uploader\<close> does
  not declare, which Django raises as \<^verbatim>\<open>FieldError\<close>; the attribute
  \<^verbatim>\<open>approved_storage_box\<close> is none of a registration request, so reading it
  raises \<^verbatim>\<open>AttributeError\<close>. With the classes of \<^verbatim>\<open>models/uploader.py\<close> the
  body therefore always ends in an exception, which the bare \<^verbatim>\<open>except\<close> catches.
\<close>

definition approved_sbox ::
  "(request \<Rightarrow> string option) \<Rightarrow> database \<Rightarrow> datafile api_bundle \<Rightarrow> error + nat option" where
  "approved_sbox get_ip db b =
     (if dict_has (data b) ''uploader_uuid'' \<and> dict_has (data b) ''requester_key_fingerprint''
      then
        (case dict_get (data b) ''uploader_uuid'' of
           Inl e \<Rightarrow> Inl e
         | Inr uploader_uuid \<Rightarrow>
             (case dict_get (data b) ''requester_key_fingerprint'' of
                Inl e \<Rightarrow> Inl e
              | Inr fingerprint \<Rightarrow> Inl (FieldError ''uuid'')))
      else
        (let ip = get_ip (request b)
         in case dataset_instrument (obj b) of
              None \<Rightarrow> Inl (AttributeError ''id'')
            | Some instrument_id \<Rightarrow>
                (case objects_first
                        (filter (\<lambda>u. wan_ip_address u = ip \<and> instrument_id \<in> set (instruments u))
                           (uploaders db)) of
                   None \<Rightarrow> Inl DoesNotExist
                 | Some u \<Rightarrow>
                     (case objects_get (\<lambda>r. Some (request_uploader r) = uploader_id u)
                             (uploader_registration_requests db) of
                        Inl e \<Rightarrow> Inl e
                      | Inr uploader_registration_request \<Rightarrow>
                          Inl (AttributeError ''approved_storage_box'')))))"

text \<open>
  \<^verbatim>\<open>obj_create\<close>. \<open>super_obj_create\<close> is the creation by the grandparent class;
  its bundle is both \<^verbatim>\<open>retval\<close> and the bundle the rest of the method reads.
  \<open>get_receiving_storage_box\<close> is the method of the data file and \<open>create_dfo\<close>
  stands for creating and saving the \<^verbatim>\<open>DataFileObject\<close>, giving its full path.
  The result is \<^verbatim>\<open>retval\<close> with the new value of \<^verbatim>\<open>self.temp_url\<close>, if set.
\<close>

definition datafile_obj_create ::
  "(datafile api_bundle \<Rightarrow> error + datafile api_bundle) \<Rightarrow> (request \<Rightarrow> string option) \<Rightarrow>
   (datafile \<Rightarrow> error + nat option) \<Rightarrow> (datafile \<Rightarrow> nat \<Rightarrow> error + string) \<Rightarrow>
   database \<Rightarrow> datafile api_bundle \<Rightarrow> error + (datafile api_bundle \<times> string option)" where
  "datafile_obj_create super_obj_create get_ip get_receiving_storage_box create_dfo db b =
     (case super_obj_create b of
        Inl (IntegrityError err) \<Rightarrow>
          if str_contains ''duplicate key'' err
          then Inl (ImmediateHttpResponse 409)
          else Inl (IntegrityError err)
      | Inl e \<Rightarrow> Inl e
      | Inr retval \<Rightarrow>
          if (case map_of (data retval) ''replicas'' of
                None \<Rightarrow> True
              | Some replicas \<Rightarrow> \<not> py_truthy replicas)
          then
            (case (case approved_sbox get_ip db retval of
                     Inl _ \<Rightarrow> get_receiving_storage_box (obj retval)
                   | Inr sbox \<Rightarrow> Inr sbox) of
               Inl e \<Rightarrow> Inl e
             | Inr None \<Rightarrow> Inl NotImplementedError
             | Inr (Some sbox) \<Rightarrow>
                 (case create_dfo (obj retval) sbox of
                    Inl e \<Rightarrow> Inl e
                  | Inr full_path \<Rightarrow> Inr (retval, Some full_path)))
          else Inr (retval, None))"

section \<open>The experiment a query asks for\<close>

text \<open>
  What the claims say \<^verbatim>\<open>obj_get_list\<close> returns, written from their words and
  compared with the loops above. The folder structure in force is the one the request
  names, else the guess.
\<close>

definition effective_folder_structure :: "(string \<rightharpoonup> string) \<Rightarrow> string" where
  "effective_folder_structure g =
     (case g ''folder_structure'' of
        Some fs \<Rightarrow> fs
      | None \<Rightarrow>
          (case g ''group_folder_name'' of
             Some group_folder_name \<Rightarrow>
               if strip group_folder_name \<noteq> '''' then ''User Group / ...''
               else guess_from_user_folder g
           | None \<Rightarrow> guess_from_user_folder g))"

definition requires_user_match :: "string \<Rightarrow> bool" where
  "requires_user_match fs = (startswith fs ''Username /'' \<or> startswith fs ''Email /'')"

definition requires_group_match :: "string \<Rightarrow> bool" where
  "requires_group_match fs = startswith fs ''User Group /''"

text \<open>
  The accounts a user folder name stands for: by user name under a
  \<^verbatim>\<open>Username /\<close> structure, by e-mail address without regard to case otherwise.
\<close>

definition accounts_of :: "string \<Rightarrow> string \<Rightarrow> user list \<Rightarrow> user list" where
  "accounts_of fs user_folder_name rows =
     (if startswith fs ''Username /''
      then filter (\<lambda>u. username u = user_folder_name) rows
      else filter (\<lambda>u. lower (email u) = lower user_folder_name) rows)"

text \<open>
  The matched user: the account, or the placeholder for an unknown user that carries
  the folder name as user name or as e-mail address.
\<close>

definition matched_user_of :: "string \<Rightarrow> string \<Rightarrow> user list \<Rightarrow> user_to_match" where
  "matched_user_of fs user_folder_name accounts =
     (case accounts of
        u # _ \<Rightarrow> KnownUser u
      | [] \<Rightarrow>
          if startswith fs ''Username /'' then UnknownUser user_folder_name ''UNKNOWN''
          else UnknownUser ''UNKNOWN'' user_folder_name)"

definition pset_params :: "database \<Rightarrow> experiment_parameterset \<Rightarrow> experiment_parameter list" where
  "pset_params db ps = filter (\<lambda>p. parameter_parameterset p = parameterset_id ps) (parameters db)"

definition user_folder_param :: "user_to_match \<Rightarrow> experiment_parameter \<Rightarrow> bool" where
  "user_folder_param u p =
     (parameter_name p = ''user_folder_name'' \<and>
      (lower (string_value p) = lower (match_username u) \<or>
       lower (string_value p) = lower (match_email u)))"

definition group_folder_param :: "string \<Rightarrow> experiment_parameter \<Rightarrow> bool" where
  "group_folder_param group_folder_name p =
     (parameter_name p = ''group_folder_name'' \<and> string_value p = group_folder_name)"

definition uploader_param :: "string \<Rightarrow> experiment_parameter \<Rightarrow> bool" where
  "uploader_param uploader_uuid p =
     (parameter_name p = ''uploader'' \<and> string_value p = uploader_uuid)"

text \<open>
  A parameter set matches a title query when it has the user folder parameter where
  the folder structure requires a user match, and the group folder parameter where it
  requires a group match.
\<close>

definition title_match ::
  "database \<Rightarrow> bool \<Rightarrow> user_to_match \<Rightarrow> bool \<Rightarrow> string \<Rightarrow> experiment_parameterset \<Rightarrow> bool" where
  "title_match db need_user u need_group group_folder_name ps =
     ((need_user \<longrightarrow> list_ex (user_folder_param u) (pset_params db ps)) \<and>
      (need_group \<longrightarrow> list_ex (group_folder_param group_folder_name) (pset_params db ps)))"

text \<open>
  A parameter set matches an uploader query when it has the uploader parameter of the
  UUID and the matching user folder parameter or the matching group folder parameter.
\<close>

definition uploader_match ::
  "database \<Rightarrow> string \<Rightarrow> bool \<Rightarrow> user_to_match \<Rightarrow> bool \<Rightarrow> string \<Rightarrow>
   experiment_parameterset \<Rightarrow> bool" where
  "uploader_match db uploader_uuid need_user u need_group group_folder_name ps =
     (list_ex (uploader_param uploader_uuid) (pset_params db ps) \<and>
      (need_user \<and> list_ex (user_folder_param u) (pset_params db ps) \<or>
       need_group \<and> list_ex (group_folder_param group_folder_name) (pset_params db ps)))"

definition accessible_to :: "(user \<Rightarrow> experiment_model list) \<Rightarrow> user \<Rightarrow> experiment_parameterset \<Rightarrow> bool" where
  "accessible_to safe_all usr ps =
     (parameterset_experiment ps \<in> set (map experiment_id (safe_all usr)))"

definition experiments_of :: "database \<Rightarrow> experiment_parameterset \<Rightarrow> experiment_model list" where
  "experiments_of db ps =
     filter (\<lambda>e. experiment_id e = parameterset_experiment ps) (experiments db)"

text \<open>
  The first parameter set in scan order that matches and whose experiment the user may
  see gives the experiment; no such parameter set gives the empty list.
\<close>

definition first_experiment ::
  "(experiment_parameterset \<Rightarrow> bool) \<Rightarrow> database \<Rightarrow> experiment_parameterset list \<Rightarrow>
   experiment_model list" where
  "first_experiment wanted db psets =
     (case find wanted psets of
        None \<Rightarrow> []
      | Some ps \<Rightarrow> experiments_of db ps)"

text \<open>
  The parameter sets a scan reads: those before the first wanted one, and that one;
  all of them when none is wanted.
\<close>

fun scanned_psets ::
  "(experiment_parameterset \<Rightarrow> bool) \<Rightarrow> experiment_parameterset list \<Rightarrow>
   experiment_parameterset list" where
  "scanned_psets wanted [] = []"
| "scanned_psets wanted (ps # psets) =
     (if wanted ps then [ps] else ps # scanned_psets wanted psets)"

text \<open>The parameter sets of default experiments, and those of a title.\<close>

definition default_psets :: "database \<Rightarrow> schema \<Rightarrow> experiment_parameterset list" where
  "default_psets db sch = filter (\<lambda>p. parameterset_schema p = schema_id sch) (parametersets db)"

definition titled_psets :: "database \<Rightarrow> schema \<Rightarrow> string \<Rightarrow> experiment_parameterset list" where
  "titled_psets db sch t =
     filter (\<lambda>p. parameterset_schema p = schema_id sch \<and>
                  list_ex (\<lambda>e. experiment_id e = parameterset_experiment p \<and> title e = t)
                    (experiments db))
       (parametersets db)"

text \<open>
  Referential integrity, which the database keeps: the experiment of every parameter
  set is exactly one row.
\<close>

definition foreign_keys_ok :: "database \<Rightarrow> bool" where
  "foreign_keys_ok db = list_all (\<lambda>ps. length (experiments_of db ps) = 1) (parametersets db)"

section \<open>The settings of an uploader as a dictionary\<close>

text \<open>
  What the stored settings say: the value of each pair of uploader and key. A table
  has no duplicate when no two rows share the pair. The entries of a payload are well
  formed when each is a dictionary with a \<^verbatim>\<open>key\<close> and a \<^verbatim>\<open>value\<close>.
\<close>

definition setting_pair :: "uploader_setting \<Rightarrow> nat \<times> pyvalue" where
  "setting_pair s = (setting_uploader s, setting_key s)"

definition settings_unique :: "uploader_setting list \<Rightarrow> bool" where
  "settings_unique rows = distinct (map setting_pair rows)"

definition settings_map :: "uploader_setting list \<Rightarrow> (nat \<times> pyvalue) \<rightharpoonup> pyvalue" where
  "settings_map rows = map_of (map (\<lambda>s. (setting_pair s, setting_value s)) rows)"

definition entry_of :: "pyvalue \<Rightarrow> pyvalue \<times> pyvalue \<Rightarrow> bool" where
  "entry_of setting kv =
     (py_getitem setting ''key'' = Inr (fst kv) \<and> py_getitem setting ''value'' = Inr (snd kv))"

definition entries_of :: "pyvalue list \<Rightarrow> (pyvalue \<times> pyvalue) list \<Rightarrow> bool" where
  "entries_of settings kvs = list_all2 entry_of settings kvs"

section \<open>Example data\<close>

definition anonymous :: user where
  "anonymous = \<lparr>username = '''', email = '''', is_authenticated = False, is_superuser = False\<rparr>"

definition alice :: user where
  "alice = \<lparr>username = ''alice'', email = ''Alice@example.org'',
            is_authenticated = True, is_superuser = False\<rparr>"

text \<open>Alice manages one facility, nobody else manages any.\<close>

definition facilities_of :: "user \<Rightarrow> nat list" where
  "facilities_of u = (if username u = ''alice'' then [1] else [])"

definition super_permits :: "model_obj api_bundle \<Rightarrow> bool" where
  "super_permits b = True"

definition instrument_pc :: uploader where
  "instrument_pc =
     \<lparr>uploader_id = Some 1, name = ''Microscope PC'',
      contact_name = ''Alice'', contact_email = ''alice@example.org'', instruments = [7],
      user_agent_name = Some ''MyData'', user_agent_version = None,
      user_agent_install_location = None, os_platform = None, os_system = None,
      os_release = None, os_version = None, os_username = None, machine = None,
      architecture = None, processor = None, memory = None, cpus = None,
      disk_usage = None, data_path = None, default_user = None,
      interface = ''Ethernet'', mac_address = ''00:11:22:33:44:55'',
      ipv4_address = None, ipv6_address = None, subnet_mask = None, hostname = None,
      wan_ip_address = Some ''10.0.0.1'', created_time = None, updated_time = None\<rparr>"

definition request_of :: "user \<Rightarrow> request" where
  "request_of u = \<lparr>GET = None, request_user = u\<rparr>"

text \<open>
  Two serialized uploaders that agree on the accessible keys and differ on the
  hardware, network and contact details.
\<close>

definition bundle_of :: "(string \<times> pyvalue) list \<Rightarrow> uploader api_bundle" where
  "bundle_of d = \<lparr>request = request_of alice, obj = instrument_pc, obj_attrs = [], data = d,
                  obj_update_done = False\<rparr>"

definition serialized_pc1 :: "(string \<times> pyvalue) list" where
  "serialized_pc1 =
     [(''id'', PInt 1), (''mac_address'', PStr ''00:11:22:33:44:55''),
      (''name'', PStr ''Microscope PC''), (''hostname'', PStr ''pc1''),
      (''contact_email'', PStr ''alice@example.org''), (''settings'', PList [])]"

definition serialized_pc2 :: "(string \<times> pyvalue) list" where
  "serialized_pc2 =
     [(''os_username'', PStr ''bob''), (''id'', PInt 1), (''name'', PStr ''Microscope PC''),
      (''mac_address'', PStr ''66:77:88:99:aa:bb''), (''settings'', PList []),
      (''cpus'', PInt 8)]"

text \<open>
  A registration request of the instrument PC, the address \<^verbatim>\<open>get_ip\<close> finds for
  every request, and parent methods that hand the bundle back unchanged.
\<close>

definition key_request :: uploader_registration_request where
  "key_request =
     \<lparr>request_id = None, request_uploader = 1, requester_name = ''Alice'',
      requester_email = ''alice@example.org'', requester_public_key = ''ssh-rsa AAAA'',
      requester_key_fingerprint = ''aa:bb:cc'', request_time = None, approved = False,
      approved_staging_host = None, approved_username = None, approver_comments = None,
      approval_expiry = None, approval_time = None\<rparr>"

definition request_bundle :: "uploader_registration_request api_bundle" where
  "request_bundle = \<lparr>request = request_of alice, obj = key_request, obj_attrs = [], data = [],
                     obj_update_done = False\<rparr>"

definition client_ip :: "request \<Rightarrow> string option" where
  "client_ip r = Some ''192.0.2.7''"

definition super_returns :: "'o api_bundle \<Rightarrow> error + 'o api_bundle" where
  "super_returns b = Inr b"

text \<open>
  A data file without replicas, two failing creations by the parent class, and the
  framework calls of \<^verbatim>\<open>DataFileAppResource.obj_create\<close>.
\<close>

definition datafile_bundle :: "datafile api_bundle" where
  "datafile_bundle = \<lparr>request = request_of alice,
                       obj = \<lparr>datafile_id = 5, dataset_instrument = Some 7\<rparr>, obj_attrs = [],
                       data = [(''filename'', PStr ''scan.tif'')], obj_update_done = False\<rparr>"

definition super_duplicate :: "datafile api_bundle \<Rightarrow> error + datafile api_bundle" where
  "super_duplicate b = Inl (IntegrityError ''duplicate key value violates unique constraint'')"

definition super_null :: "datafile api_bundle \<Rightarrow> error + datafile api_bundle" where
  "super_null b = Inl (IntegrityError ''null value in column'')"

definition receiving_box :: "datafile \<Rightarrow> error + nat option" where
  "receiving_box d = Inr (Some 3)"

definition create_dfo_at :: "datafile \<Rightarrow> nat \<Rightarrow> error + string" where
  "create_dfo_at d sbox = Inr ''/staging/scan.tif''"

definition empty_database :: database where
  "empty_database =
     \<lparr>users = [], uploaders = [], uploader_settings = [],
      uploader_registration_requests = [], schemas = [], experiments = [],
      parametersets = [], parameters = []\<rparr>"

text \<open>The registration request as stored, and a payload naming an uploader.\<close>

definition saved_request :: uploader_registration_request where
  "saved_request = key_request\<lparr>request_id := Some 1\<rparr>"


text \<open>
  A database with two accounts, the schema of default experiments, a default
  experiment for Alice's user folder and one for a group folder, both of the uploader
  \<^verbatim>\<open>uuid-1\<close>; every experiment is accessible to every user.
\<close>

definition bob :: user where
  "bob = \<lparr>username = ''bob'', email = ''bob@example.org'',
          is_authenticated = True, is_superuser = False\<rparr>"

definition default_schema :: schema where
  "default_schema = \<lparr>schema_id = 1, namespace = default_experiment_namespace\<rparr>"

definition alice_experiment :: experiment_model where
  "alice_experiment = \<lparr>experiment_id = 10, title = ''Microscope data''\<rparr>"

definition group_experiment :: experiment_model where
  "group_experiment = \<lparr>experiment_id = 11, title = ''Microscope data''\<rparr>"

definition example_database :: database where
  "example_database =
     \<lparr>users = [alice, bob], uploaders = [instrument_pc], uploader_settings = [],
      uploader_registration_requests = [],
      schemas = [default_schema],
      experiments = [alice_experiment, group_experiment],
      parametersets =
        [\<lparr>parameterset_id = 100, parameterset_schema = 1, parameterset_experiment = 10\<rparr>,
         \<lparr>parameterset_id = 101, parameterset_schema = 1, parameterset_experiment = 11\<rparr>],
      parameters =
        [\<lparr>parameter_parameterset = 100, parameter_name = ''uploader'', string_value = ''uuid-1''\<rparr>,
         \<lparr>parameter_parameterset = 100, parameter_name = ''user_folder_name'',
          string_value = ''ALICE''\<rparr>,
         \<lparr>parameter_parameterset = 101, parameter_name = ''uploader'', string_value = ''uuid-1''\<rparr>,
         \<lparr>parameter_parameterset = 101, parameter_name = ''group_folder_name'',
          string_value = ''Lab A''\<rparr>]\<rparr>"

definition safe_everything :: "user \<Rightarrow> experiment_model list" where
  "safe_everything u = [alice_experiment, group_experiment]"

definition query :: "(string \<times> string) list \<Rightarrow> unit api_bundle" where
  "query kvs = \<lparr>request = \<lparr>GET = Some (map_of kvs), request_user = alice\<rparr>, obj = (),
                 obj_attrs = [], data = [], obj_update_done = False\<rparr>"

definition super_lists_nothing :: "unit api_bundle \<Rightarrow> error + experiment_model list" where
  "super_lists_nothing b = Inr []"

text \<open>
  A stored setting of the instrument PC, a payload that changes it and adds a second
  one, and the parent's \<^verbatim>\<open>hydrate_m2m\<close> handing the bundle back.
\<close>

definition stored_setting :: uploader_setting where
  "stored_setting = \<lparr>setting_id = Some 1, setting_uploader = 1, setting_key = PStr ''folder'',
                      setting_value = PStr ''C:/old''\<rparr>"

definition settings_database :: database where
  "settings_database = example_database\<lparr>uploader_settings := [stored_setting]\<rparr>"

definition settings_payload :: "(string \<times> pyvalue) list" where
  "settings_payload =
     [(''name'', PStr ''Microscope PC''),
      (''settings'',
       PList [PDict [(''key'', PStr ''folder''), (''value'', PStr ''D:/data'')],
              PDict [(''key'', PStr ''interval''), (''value'', PInt 5)]])]"

definition super_hydrate_m2m_returns ::
  "database \<Rightarrow> uploader api_bundle \<Rightarrow> (error + uploader api_bundle) \<times> database" where
  "super_hydrate_m2m_returns db b = (Inr b, db)"

text \<open>
  A second setting of the same uploader and key, as a client can create it through the
  settings resource, and the table after saving it.
\<close>

definition second_folder :: uploader_setting where
  "second_folder = \<lparr>setting_id = None, setting_uploader = 1, setting_key = PStr ''folder'',
                     setting_value = PStr ''E:/other''\<rparr>"

definition doubled_database :: database where
  "doubled_database =
     example_database\<lparr>uploader_settings := save_uploader_setting [stored_setting] second_folder\<rparr>"

section \<open>Authorization of uploader creation\<close>

lemma create_detail_uploader_decision:
  "create_detail fmb super_create_detail (b\<lparr>obj := UploaderObj u\<rparr>) =
     (is_authenticated (request_user (request b)) \<and> fmb (request_user (request b)) \<noteq> [])"
  by (simp add: create_detail_def is_facility_manager_def Let_def)

text \<open>
  C4 says that an Uploader record can be created unauthenticated, the create-detail
  decision for an Uploader object permitting creation whether or not the requesting
  user is authenticated; the docstring of the class \<^verbatim>\<open>Uploader\<close> says the same. The
  code refuses the anonymous request, whatever the parent class would answer.
\<close>

theorem create_detail_refuses_anonymous:
  "create_detail facilities_of super_permits
     \<lparr>request = request_of anonymous, obj = UploaderObj instrument_pc, obj_attrs = [],
      data = [], obj_update_done = False\<rparr> = False"
  by (simp add: create_detail_def is_facility_manager_def Let_def request_of_def anonymous_def)

section \<open>Serialization of uploaders\<close>

lemma dehydrate_keys_filter:
  "dehydrate_keys ks d =
     filter (\<lambda>kv. fst kv \<in> set accessible_keys \<or> fst kv \<notin> set ks) d"
proof (induction ks arbitrary: d)
  case Nil
  then show ?case by simp
next
  case (Cons k ks)
  show ?case
    unfolding dehydrate_keys.simps Cons.IH
    by (auto simp: dict_del_def intro: filter_cong)
qed

lemma dehydrate_data:
  "data (dehydrate b) = filter (\<lambda>kv. fst kv \<in> set accessible_keys) (data b)"
  by (auto simp: dehydrate_def dehydrate_keys_filter dict_keys_def intro: filter_cong)

lemma map_of_filter_key:
  "map_of (filter (\<lambda>kv. fst kv \<in> A) d) k = (if k \<in> A then map_of d k else None)"
  by (induction d) auto

text \<open>
  C9: after \<^verbatim>\<open>dehydrate\<close> the payload has only accessible keys, and two bundles
  whose payloads agree on the accessible keys, whatever their other entries (hardware,
  operating system, network, contact details), are dehydrated to equal dictionaries:
  no other field reaches the response.
\<close>

theorem dehydrate_noninterference:
  "fst ` set (data (dehydrate b)) \<subseteq> set accessible_keys \<and>
   ((\<forall>k \<in> set accessible_keys. map_of (data b1) k = map_of (data b2) k) \<longrightarrow>
      map_of (data (dehydrate b1)) = map_of (data (dehydrate b2)))"
proof
  show "fst ` set (data (dehydrate b)) \<subseteq> set accessible_keys"
    by (auto simp: dehydrate_data)
next
  show "(\<forall>k \<in> set accessible_keys. map_of (data b1) k = map_of (data b2) k) \<longrightarrow>
      map_of (data (dehydrate b1)) = map_of (data (dehydrate b2))"
  proof
    assume agree: "\<forall>k \<in> set accessible_keys. map_of (data b1) k = map_of (data b2) k"
    show "map_of (data (dehydrate b1)) = map_of (data (dehydrate b2))"
    proof
      fix k
      show "map_of (data (dehydrate b1)) k = map_of (data (dehydrate b2)) k"
        using agree by (simp add: dehydrate_data map_of_filter_key)
    qed
  qed
qed

text \<open>
  Witness for C9: two serialized uploaders with different MAC addresses, host and
  contact entries that agree on the accessible keys.
\<close>

theorem dehydrate_noninterference_witness:
  "map_of (data (bundle_of serialized_pc1)) ''mac_address'' \<noteq>
     map_of (data (bundle_of serialized_pc2)) ''mac_address'' \<and>
   map_of (data (dehydrate (bundle_of serialized_pc1))) =
     map_of (data (dehydrate (bundle_of serialized_pc2)))"
proof -
  have agree: "\<forall>k \<in> set accessible_keys.
      map_of (data (bundle_of serialized_pc1)) k = map_of (data (bundle_of serialized_pc2)) k"
    by (simp add: accessible_keys_def bundle_of_def serialized_pc1_def serialized_pc2_def)
  have differ: "map_of (data (bundle_of serialized_pc1)) ''mac_address'' \<noteq>
     map_of (data (bundle_of serialized_pc2)) ''mac_address''"
    by (simp add: bundle_of_def serialized_pc1_def serialized_pc2_def)
  from agree differ
    dehydrate_noninterference [of "bundle_of serialized_pc1" "bundle_of serialized_pc1" "bundle_of serialized_pc2"]
  show ?thesis by blast
qed

section \<open>Time stamps and addresses\<close>

lemma map_of_dict_set:
  "map_of (dict_set d k v) k' = (if k' = k then Some v else map_of d k')"
  by (induction d) (auto simp: dict_set_def dict_del_def)

text \<open>
  C7: the hooks stamp times and addresses. \<^verbatim>\<open>obj_create\<close> of an uploader hands
  to the parent's creation a payload whose \<^verbatim>\<open>created_time\<close> and
  \<^verbatim>\<open>updated_time\<close> are the clock readings and whose \<^verbatim>\<open>wan_ip_address\<close> is the
  client's address exactly when \<^verbatim>\<open>get_ip\<close> finds one (otherwise the entry is as
  the client sent it); \<^verbatim>\<open>obj_update\<close>, on a bundle it has not yet marked as
  updated, does the same for \<^verbatim>\<open>updated_time\<close> and \<^verbatim>\<open>wan_ip_address\<close>; and the
  bundle \<^verbatim>\<open>hydrate\<close> returns for a registration request has \<^verbatim>\<open>request_time\<close>
  set to the clock reading.
\<close>

theorem crud_hooks_stamp:
  "(\<exists>b'. uploader_obj_create now1 now2 get_ip super_obj_create b = super_obj_create b' \<and>
         request b' = request b \<and> obj b' = obj b \<and>
         map_of (data b') ''created_time'' = Some (PTime now1) \<and>
         map_of (data b') ''updated_time'' = Some (PTime now2) \<and>
         map_of (data b') ''wan_ip_address'' =
           (case get_ip (request b) of
              Some ip \<Rightarrow> Some (PStr ip)
            | None \<Rightarrow> map_of (data b) ''wan_ip_address'')) \<and>
   (\<not> obj_update_done b \<longrightarrow>
      (\<exists>b'. uploader_obj_update now get_ip super_obj_update b =
               (case super_obj_update b' of
                  Inl e \<Rightarrow> Inl e
                | Inr b3 \<Rightarrow> Inr (Some (b3\<lparr>obj_update_done := True\<rparr>))) \<and>
            request b' = request b \<and> obj b' = obj b \<and>
            map_of (data b') ''updated_time'' = Some (PTime now) \<and>
            map_of (data b') ''wan_ip_address'' =
              (case get_ip (request b) of
                 Some ip \<Rightarrow> Some (PStr ip)
               | None \<Rightarrow> map_of (data b) ''wan_ip_address''))) \<and>
   (registration_request_hydrate now super_hydrate rb = Inr rb' \<longrightarrow>
      map_of (data rb') ''request_time'' = Some (PTime now))"
proof (intro conjI impI)
  show "\<exists>b'. uploader_obj_create now1 now2 get_ip super_obj_create b = super_obj_create b' \<and>
         request b' = request b \<and> obj b' = obj b \<and>
         map_of (data b') ''created_time'' = Some (PTime now1) \<and>
         map_of (data b') ''updated_time'' = Some (PTime now2) \<and>
         map_of (data b') ''wan_ip_address'' =
           (case get_ip (request b) of
              Some ip \<Rightarrow> Some (PStr ip)
            | None \<Rightarrow> map_of (data b) ''wan_ip_address'')"
  proof (cases "get_ip (request b)")
    case None
    show ?thesis
      by (rule exI [of _ "b\<lparr>data := dict_set (dict_set (data b) ''created_time'' (PTime now1))
                                  ''updated_time'' (PTime now2)\<rparr>"])
         (simp add: uploader_obj_create_def Let_def map_of_dict_set None)
  next
    case (Some ip)
    show ?thesis
      by (rule exI [of _ "b\<lparr>data := dict_set (dict_set (dict_set (data b) ''created_time''
                (PTime now1)) ''updated_time'' (PTime now2)) ''wan_ip_address'' (PStr ip)\<rparr>"])
         (simp add: uploader_obj_create_def Let_def map_of_dict_set Some)
  qed
next
  assume "\<not> obj_update_done b"
  then have run: "uploader_obj_update now get_ip super_obj_update b =
      (case super_obj_update
              (case get_ip (request b) of
                 None \<Rightarrow> b\<lparr>data := dict_set (data b) ''updated_time'' (PTime now)\<rparr>
               | Some ip \<Rightarrow> b\<lparr>data := dict_set (dict_set (data b) ''updated_time'' (PTime now))
                                       ''wan_ip_address'' (PStr ip)\<rparr>) of
         Inl e \<Rightarrow> Inl e
       | Inr b3 \<Rightarrow> Inr (Some (b3\<lparr>obj_update_done := True\<rparr>)))"
    by (simp add: uploader_obj_update_def Let_def split: option.splits)
  show "\<exists>b'. uploader_obj_update now get_ip super_obj_update b =
               (case super_obj_update b' of
                  Inl e \<Rightarrow> Inl e
                | Inr b3 \<Rightarrow> Inr (Some (b3\<lparr>obj_update_done := True\<rparr>))) \<and>
            request b' = request b \<and> obj b' = obj b \<and>
            map_of (data b') ''updated_time'' = Some (PTime now) \<and>
            map_of (data b') ''wan_ip_address'' =
              (case get_ip (request b) of
                 Some ip \<Rightarrow> Some (PStr ip)
               | None \<Rightarrow> map_of (data b) ''wan_ip_address'')"
  proof (cases "get_ip (request b)")
    case None
    show ?thesis
      by (rule exI [of _ "b\<lparr>data := dict_set (data b) ''updated_time'' (PTime now)\<rparr>"])
         (simp add: run map_of_dict_set None)
  next
    case (Some ip)
    show ?thesis
      by (rule exI [of _ "b\<lparr>data := dict_set (dict_set (data b) ''updated_time'' (PTime now))
                                  ''wan_ip_address'' (PStr ip)\<rparr>"])
         (simp add: run map_of_dict_set Some)
  qed
next
  assume "registration_request_hydrate now super_hydrate rb = Inr rb'"
  then show "map_of (data rb') ''request_time'' = Some (PTime now)"
    by (auto simp: registration_request_hydrate_def map_of_dict_set split: sum.splits)
qed

text \<open>
  Witness for C7: an update of a bundle not yet marked, and the hydration of a
  registration request whose parent method returns the bundle.
\<close>

theorem crud_hooks_stamp_witness:
  "\<not> obj_update_done (bundle_of []) \<and>
   registration_request_hydrate 42 super_returns request_bundle =
     Inr (request_bundle\<lparr>data := [(''request_time'', PTime 42)]\<rparr>) \<and>
   (\<exists>b'. uploader_obj_update 42 client_ip super_returns (bundle_of []) =
            Inr (Some (b'\<lparr>obj_update_done := True\<rparr>)) \<and>
          map_of (data b') ''updated_time'' = Some (PTime 42) \<and>
          map_of (data b') ''wan_ip_address'' = Some (PStr ''192.0.2.7'')) \<and>
   map_of [(''request_time'', PTime 42)] ''request_time'' = Some (PTime 42)"
proof -
  have fresh: "\<not> obj_update_done (bundle_of [])"
    by (simp add: bundle_of_def)
  have hyd: "registration_request_hydrate 42 super_returns request_bundle =
     Inr (request_bundle\<lparr>data := [(''request_time'', PTime 42)]\<rparr>)"
    by (simp add: registration_request_hydrate_def super_returns_def request_bundle_def
        dict_set_def dict_del_def)
  from crud_hooks_stamp [of 1 2 client_ip super_returns "bundle_of []" 42 super_returns
      super_returns request_bundle "request_bundle\<lparr>data := [(''request_time'', PTime 42)]\<rparr>"]
    fresh hyd
  show ?thesis
    by (auto simp: super_returns_def client_ip_def)
qed

section \<open>Errors of data file creation\<close>

text \<open>
  C3: when the creation of the data file record raises an integrity error whose
  message mentions a duplicate key, \<^verbatim>\<open>obj_create\<close> raises the HTTP 409 response;
  any other exception of the creation, an integrity error without that phrase among
  them, is the exception \<^verbatim>\<open>obj_create\<close> raises.
\<close>

theorem datafile_obj_create_errors:
  "(super_obj_create b = Inl (IntegrityError err) \<and> str_contains ''duplicate key'' err \<longrightarrow>
      datafile_obj_create super_obj_create get_ip get_receiving_storage_box create_dfo db b =
        Inl (ImmediateHttpResponse 409)) \<and>
   (super_obj_create b = Inl e \<and>
    (\<forall>msg. e = IntegrityError msg \<longrightarrow> \<not> str_contains ''duplicate key'' msg) \<longrightarrow>
      datafile_obj_create super_obj_create get_ip get_receiving_storage_box create_dfo db b =
        Inl e)"
  by (cases e) (simp_all add: datafile_obj_create_def)

text \<open>
  Witness for C3: a creation refused for a duplicate key, and one refused for a null
  value.
\<close>

theorem datafile_obj_create_errors_witness:
  "super_duplicate datafile_bundle =
     Inl (IntegrityError ''duplicate key value violates unique constraint'') \<and>
   str_contains ''duplicate key'' ''duplicate key value violates unique constraint'' \<and>
   super_null datafile_bundle = Inl (IntegrityError ''null value in column'') \<and>
   \<not> str_contains ''duplicate key'' ''null value in column'' \<and>
   datafile_obj_create super_duplicate client_ip receiving_box create_dfo_at empty_database
     datafile_bundle = Inl (ImmediateHttpResponse 409) \<and>
   datafile_obj_create super_null client_ip receiving_box create_dfo_at empty_database
     datafile_bundle = Inl (IntegrityError ''null value in column'')"
proof -
  have dup: "super_duplicate datafile_bundle =
     Inl (IntegrityError ''duplicate key value violates unique constraint'')"
    by (simp add: super_duplicate_def)
  have has: "str_contains ''duplicate key'' ''duplicate key value violates unique constraint''"
    by (simp add: str_contains_def sublist_code)
  have null: "super_null datafile_bundle = Inl (IntegrityError ''null value in column'')"
    by (simp add: super_null_def)
  have hasnt: "\<forall>msg. IntegrityError ''null value in column'' = IntegrityError msg \<longrightarrow>
          \<not> str_contains ''duplicate key'' msg"
    by (simp add: str_contains_def sublist_code)
  from dup has
    datafile_obj_create_errors [of super_duplicate datafile_bundle
      "''duplicate key value violates unique constraint''" client_ip receiving_box
      create_dfo_at empty_database "IntegrityError ''duplicate key value violates unique constraint''"]
  have a: "datafile_obj_create super_duplicate client_ip receiving_box create_dfo_at
      empty_database datafile_bundle = Inl (ImmediateHttpResponse 409)"
    by blast
  from null hasnt
    datafile_obj_create_errors [of super_null datafile_bundle "''''" client_ip receiving_box
      create_dfo_at empty_database "IntegrityError ''null value in column''"]
  have b: "datafile_obj_create super_null client_ip receiving_box create_dfo_at
      empty_database datafile_bundle = Inl (IntegrityError ''null value in column'')"
    by blast
  have hasnt': "\<not> str_contains ''duplicate key'' ''null value in column''"
    by (simp add: str_contains_def sublist_code)
  from dup has null hasnt' a b show ?thesis by blast
qed

section \<open>Uniqueness constraints\<close>

lemma fold_max_bounds:
  "(m::nat) \<le> fold (\<lambda>pk m. case pk of None \<Rightarrow> m | Some i \<Rightarrow> max i m) pks m \<and>
   (\<forall>i. Some i \<in> set pks \<longrightarrow>
      i \<le> fold (\<lambda>pk m. case pk of None \<Rightarrow> m | Some i \<Rightarrow> max i m) pks m)"
proof (induction pks arbitrary: m)
  case Nil
  then show ?case by simp
next
  case (Cons pk pks)
  let ?f = "\<lambda>pk m. case pk of None \<Rightarrow> m | Some i \<Rightarrow> max i (m::nat)"
  have step: "m \<le> ?f pk m" by (cases pk) auto
  from Cons.IH [of "?f pk m"] step show ?case
    by (cases pk) (auto intro: order_trans)
qed

lemma next_id_fresh: "Some (next_id pks) \<notin> set pks"
proof
  assume "Some (next_id pks) \<in> set pks"
  with fold_max_bounds [of 0 pks] have "next_id pks \<le> next_id pks - 1"
    by (auto simp: next_id_def)
  then show False by (simp add: next_id_def)
qed

lemma replace_row_keys:
  assumes "distinct (map pk rows)" and "distinct (map key rows)"
    and "\<forall>x \<in> set rows. pk x \<noteq> Some i \<longrightarrow> key x \<noteq> key r"
  shows "distinct (map key (map (\<lambda>x. if pk x = Some i then r else x) rows))"
  using assms
proof (induction rows)
  case Nil
  then show ?case by simp
next
  case (Cons x xs)
  let ?f = "\<lambda>x. if pk x = Some i then r else x"
  from Cons.prems have IH: "distinct (map key (map ?f xs))"
    by (intro Cons.IH) auto
  show ?case
  proof (cases "pk x = Some i")
    case True
    with Cons.prems have "\<forall>y \<in> set xs. pk y \<noteq> Some i" by force
    then have same: "map ?f xs = xs" by (induction xs) auto
    from Cons.prems \<open>\<forall>y \<in> set xs. pk y \<noteq> Some i\<close> have "key r \<notin> key ` set xs" by auto
    with Cons.prems True same show ?thesis by simp
  next
    case False
    with Cons.prems have kr: "key x \<noteq> key r" by simp
    from Cons.prems have "key x \<notin> key ` set xs" by simp
    then have kxs: "\<And>z. z \<in> set xs \<Longrightarrow> key z \<noteq> key x"
      by (metis imageI)
    have neq: "key (?f z) \<noteq> key x" if "z \<in> set xs" for z
    proof (cases "pk z = Some i")
      case True
      with kr show ?thesis by simp
    next
      case False
      with kxs [OF that] show ?thesis by simp
    qed
    have "key x \<notin> set (map key (map ?f xs))"
    proof
      assume "key x \<in> set (map key (map ?f xs))"
      then obtain z where "z \<in> set xs" and "key x = key (?f z)"
        by (auto simp del: map_map)
      with neq [of z] show False by simp
    qed
    with IH False show ?thesis by (simp del: map_map)
  qed
qed

lemma model_save_invariant:
  assumes pk_set: "\<And>i x. pk (set_pk i x) = Some i"
    and key_set: "\<And>i x. key (set_pk i x) = key x"
    and ok: "primary_keys_ok pk rows"
    and uniq: "distinct (map key rows)"
    and save: "model_save pk set_pk key rows r = Inr (rows', r')"
  shows "primary_keys_ok pk rows' \<and> distinct (map key rows')"
proof -
  from save have nv: "\<forall>x \<in> set rows. pk x \<noteq> pk r \<longrightarrow> key x \<noteq> key r"
    and st: "store_row pk set_pk rows r = (rows', r')"
    by (auto simp: model_save_def violates_unique_def list_ex_iff split: if_splits)
  from ok have some: "\<forall>x \<in> set rows. pk x \<noteq> None" and dist: "distinct (map pk rows)"
    by (auto simp: primary_keys_ok_def list_all_iff)
  show ?thesis
  proof (cases "pk r")
    case None
    with st have rows': "rows' = rows @ [set_pk (next_id (map pk rows)) r]"
      by (auto simp: store_row_def Let_def)
    from None nv some have "key r \<notin> key ` set rows" by force
    moreover have "Some (next_id (map pk rows)) \<notin> set (map pk rows)"
      by (rule next_id_fresh)
    ultimately show ?thesis
      using some dist uniq
      by (auto simp: rows' primary_keys_ok_def list_all_iff pk_set key_set)
  next
    case (Some i)
    show ?thesis
    proof (cases "list_ex (\<lambda>x. pk x = Some i) rows")
      case True
      with st Some have rows': "rows' = map (\<lambda>x. if pk x = Some i then r else x) rows"
        by (auto simp: store_row_def)
      have pks: "map pk rows' = map pk rows"
        by (auto simp: rows' Some)
      from nv Some have "\<forall>x \<in> set rows. pk x \<noteq> Some i \<longrightarrow> key x \<noteq> key r" by simp
      with dist uniq have "distinct (map key rows')"
        unfolding rows' by (rule replace_row_keys)
      moreover from some Some have "\<forall>x \<in> set rows'. pk x \<noteq> None"
        by (auto simp: rows')
      ultimately show ?thesis
        using dist pks by (simp add: primary_keys_ok_def list_all_iff)
    next
      case False
      with st Some have rows': "rows' = rows @ [r]"
        by (auto simp: store_row_def)
      from False have absent: "\<forall>x \<in> set rows. pk x \<noteq> Some i"
        by (simp add: list_ex_iff)
      with nv Some have "key r \<notin> key ` set rows" by force
      with absent some dist uniq Some show ?thesis
        by (auto simp: rows' primary_keys_ok_def list_all_iff)
    qed
  qed
qed

lemma distinct_map_filter_le_one:
  "distinct (map key rows) \<Longrightarrow> length (filter (\<lambda>r. key r = k) rows) \<le> 1"
proof (induction rows)
  case Nil
  then show ?case by simp
next
  case (Cons x xs)
  show ?case
  proof (cases "key x = k")
    case True
    with Cons.prems have "\<forall>y \<in> set xs. key y \<noteq> k"
      by (fastforce simp: image_iff)
    then have "filter (\<lambda>r. key r = k) xs = []" by (simp add: filter_empty_conv)
    with True show ?thesis by simp
  next
    case False
    with Cons show ?thesis by simp
  qed
qed

lemma reachable_requests_invariant:
  "reachable_requests rows \<Longrightarrow>
     primary_keys_ok request_id rows \<and> distinct (map unique_together rows)"
proof (induction rule: reachable_requests.induct)
  case empty_table
  show ?case by (simp add: primary_keys_ok_def)
next
  case (saved rows r rows' r')
  have pk_set: "\<And>i x. request_id (x\<lparr>request_id := Some i\<rparr>) = Some i"
    by simp
  have key_set: "\<And>i x. unique_together (x\<lparr>request_id := Some i\<rparr>) = unique_together x"
    by (simp add: unique_together_def)
  from saved.hyps(2)
  have save: "model_save request_id (\<lambda>i x. x\<lparr>request_id := Some i\<rparr>) unique_together rows r =
      Inr (rows', r')"
    by (simp add: save_registration_request_def)
  from saved.IH have ok: "primary_keys_ok request_id rows"
    and uniq: "distinct (map unique_together rows)"
    by simp_all
  show ?case
    by (rule model_save_invariant [OF pk_set key_set ok uniq save])
next
  case (deleted rows i)
  then show ?case
    by (auto simp: delete_registration_request_def primary_keys_ok_def list_all_iff
        distinct_map_filter)
qed

text \<open>
  C5: in every table of registration requests that saving and deleting can produce
  there is at most one record for each pair of uploader and requester key
  fingerprint, and every save that the database accepts, insert or update, leaves a
  table with that property.
\<close>

theorem registration_requests_unique:
  assumes "reachable_requests rows"
  shows "(\<forall>u f. length (filter (\<lambda>r. request_uploader r = u \<and> requester_key_fingerprint r = f)
                          rows) \<le> 1) \<and>
         (\<forall>r rows' r' u f. save_registration_request rows r = Inr (rows', r') \<longrightarrow>
            length (filter (\<lambda>r. request_uploader r = u \<and> requester_key_fingerprint r = f)
                      rows') \<le> 1)"
proof -
  have one: "length (filter (\<lambda>r. request_uploader r = u \<and> requester_key_fingerprint r = f) t) \<le> 1"
    if "reachable_requests t" for t u f
  proof -
    from that have "distinct (map unique_together t)"
      by (simp add: reachable_requests_invariant)
    then have "length (filter (\<lambda>r. unique_together r = (u, f)) t) \<le> 1"
      by (rule distinct_map_filter_le_one)
    then show ?thesis by (simp add: unique_together_def)
  qed
  show ?thesis
  proof (intro conjI allI impI)
    fix u f show "length (filter (\<lambda>r. request_uploader r = u \<and> requester_key_fingerprint r = f)
                          rows) \<le> 1"
      using assms by (rule one)
  next
    fix r rows' r' u f
    assume "save_registration_request rows r = Inr (rows', r')"
    with assms have "reachable_requests rows'" by (rule reachable_requests.saved)
    then show "length (filter (\<lambda>r. request_uploader r = u \<and> requester_key_fingerprint r = f)
                      rows') \<le> 1"
      by (rule one)
  qed
qed

text \<open>
  Witness for C5: the table holding one saved request is reachable, and a second
  request of the same uploader and fingerprint is refused.
\<close>

theorem registration_requests_unique_witness:
  "reachable_requests [saved_request] \<and>
   save_registration_request [saved_request] key_request =
     Inl (IntegrityError ''duplicate key value violates unique constraint'') \<and>
   length (filter (\<lambda>r. request_uploader r = 1 \<and> requester_key_fingerprint r = ''aa:bb:cc'')
             [saved_request]) \<le> 1"
proof -
  have "save_registration_request [] key_request = Inr ([saved_request], saved_request)"
    by (simp add: save_registration_request_def model_save_def violates_unique_def
        store_row_def next_id_def key_request_def saved_request_def Let_def)
  with reachable_requests.empty_table have reach: "reachable_requests [saved_request]"
    by (rule reachable_requests.saved)
  have refused: "save_registration_request [saved_request] key_request =
     Inl (IntegrityError ''duplicate key value violates unique constraint'')"
    by (simp add: save_registration_request_def model_save_def violates_unique_def
        key_request_def saved_request_def unique_together_def)
  from reach refused registration_requests_unique [of "[saved_request]"]
  show ?thesis by blast
qed









section \<open>Looking up the default experiment\<close>

lemma structures_exclusive:
  "\<not> (requires_user_match fs \<and> requires_group_match fs)"
  by (auto simp: requires_user_match_def requires_group_match_def startswith_def prefix_def)

lemma folder_structure_in_force:
  "(case g ''folder_structure'' of Some fs \<Rightarrow> Some fs | None \<Rightarrow> guess_folder_structure (Some g)) =
     Some (effective_folder_structure g)"
  by (simp add: guess_folder_structure_def effective_folder_structure_def split: option.splits)

lemma title_lookup_user:
  assumes "requires_user_match fs" and "length (accounts_of fs ufn rows) \<le> 1"
  shows "lookup_user_to_match (Some UnknownUser) rows fs ufn =
           Inr (Some (matched_user_of fs ufn (accounts_of fs ufn rows)))"
proof (cases "startswith fs ''Username /''")
  case True
  with assms(2) show ?thesis
    by (cases "filter (\<lambda>u. username u = ufn) rows")
       (simp_all add: lookup_user_to_match_def accounts_of_def matched_user_of_def
          objects_get_def read_local_def)
next
  case False
  with assms(1) have "startswith fs ''Email /''"
    by (simp add: requires_user_match_def)
  with False assms(2) show ?thesis
    by (cases "filter (\<lambda>u. lower (email u) = lower ufn) rows")
       (simp_all add: lookup_user_to_match_def accounts_of_def matched_user_of_def
          objects_get_def read_local_def)
qed

lemma uploader_lookup_user:
  assumes "requires_user_match fs" and "accounts_of fs ufn rows = [u]"
  shows "lookup_user_to_match None rows fs ufn = Inr (Some (KnownUser u))"
proof (cases "startswith fs ''Username /''")
  case True
  with assms(2) show ?thesis
    by (simp add: lookup_user_to_match_def accounts_of_def objects_get_def)
next
  case False
  with assms(1) have "startswith fs ''Email /''"
    by (simp add: requires_user_match_def)
  with False assms(2) show ?thesis
    by (simp add: lookup_user_to_match_def accounts_of_def objects_get_def)
qed

lemma folder_prelude_result:
  assumes user: "requires_user_match (effective_folder_structure g) \<Longrightarrow>
                   g ''user_folder_name'' = Some ufn \<and>
                   lookup_user_to_match cls (users db) (effective_folder_structure g) ufn = Inr (Some m)"
    and group: "requires_group_match (effective_folder_structure g) \<Longrightarrow>
                  g ''group_folder_name'' = Some gf"
    and sch: "filter (\<lambda>s. namespace s = default_experiment_namespace) (schemas db) = [sch]"
  shows "folder_prelude cls db g (guess_folder_structure (Some g)) =
           Inr (requires_user_match (effective_folder_structure g),
                requires_group_match (effective_folder_structure g),
                if requires_user_match (effective_folder_structure g) then Some m else None,
                if requires_group_match (effective_folder_structure g) then Some gf else None,
                sch)"
proof -
  have get: "objects_get (\<lambda>s. namespace s = default_experiment_namespace) (schemas db) = Inr sch"
    by (simp add: objects_get_def sch)
  show ?thesis
  proof (cases "requires_user_match (effective_folder_structure g)")
    case True
    with structures_exclusive have ng: "\<not> requires_group_match (effective_folder_structure g)"
      by blast
    from True ng user [OF True] show ?thesis
      unfolding folder_prelude_def folder_structure_in_force
      by (simp add: Let_def get requires_user_match_def requires_group_match_def)
  next
    case False
    show ?thesis
    proof (cases "requires_group_match (effective_folder_structure g)")
      case True
      with False group [OF True] show ?thesis
        unfolding folder_prelude_def folder_structure_in_force
        by (simp add: Let_def get requires_user_match_def requires_group_match_def)
    next
      case nog: False
      with False show ?thesis
        unfolding folder_prelude_def folder_structure_in_force
        by (simp add: Let_def get requires_user_match_def requires_group_match_def)
    qed
  qed
qed

lemma title_scan_params_result:
  assumes "nu \<Longrightarrow> utm = Some u" and "ng \<Longrightarrow> gfn = Some gf"
  shows "title_scan_params nu ng utm gfn ps (mu, mg) =
           Inr (mu \<or> nu \<and> list_ex (user_folder_param u) ps,
                mg \<or> ng \<and> list_ex (group_folder_param gf) ps)"
  using assms
proof (induction ps arbitrary: mu mg)
  case Nil
  then show ?case by simp
next
  case (Cons p ps)
  show ?case
  proof (cases nu)
    case True
    with Cons.prems have u: "utm = Some u" by simp
    show ?thesis
    proof (cases ng)
      case ngT: True
      with Cons.prems have g: "gfn = Some gf" by simp
      from True ngT u g Cons.IH [OF Cons.prems] show ?thesis
        by (auto simp: user_param_matches_def read_local_def user_folder_param_def
            group_folder_param_def)
    next
      case False
      with True u Cons.IH [OF Cons.prems] show ?thesis
        by (auto simp: user_param_matches_def read_local_def user_folder_param_def)
    qed
  next
    case False
    show ?thesis
    proof (cases ng)
      case True
      with Cons.prems have g: "gfn = Some gf" by simp
      from False True g Cons.IH [OF Cons.prems] show ?thesis
        by (auto simp: user_param_matches_def read_local_def group_folder_param_def)
    next
      case ngF: False
      with False Cons.IH [OF Cons.prems] show ?thesis
        by (auto simp: user_param_matches_def)
    qed
  qed
qed

lemma accessible_exp_list_result:
  assumes "length (experiments_of db ps) = 1"
  shows "accessible_exp_list safe_all db usr ps =
           Inr (if accessible_to safe_all usr ps then Some (experiments_of db ps) else None)"
proof -
  from assms obtain e where e: "experiments_of db ps = [e]"
    by (cases "experiments_of db ps") auto
  then have "e \<in> set (experiments_of db ps)" by simp
  then have id: "experiment_id e = parameterset_experiment ps"
    by (simp add: experiments_of_def)
  from e have flt: "filter (\<lambda>x. experiment_id x = parameterset_experiment ps) (experiments db) = [e]"
    by (simp add: experiments_of_def)
  show ?thesis
    by (simp add: accessible_exp_list_def objects_get_def flt id accessible_to_def e)
qed

lemma title_scan_psets_result:
  assumes u: "nu \<Longrightarrow> utm = Some u" and g: "ng \<Longrightarrow> gfn = Some gf"
    and excl: "\<not> (nu \<and> ng)"
    and fk: "\<forall>ps \<in> set psets. length (experiments_of db ps) = 1"
  shows "title_scan_psets safe_all db usr nu ng utm gfn psets =
           Inr (first_experiment
                  (\<lambda>ps. title_match db nu u ng gf ps \<and> accessible_to safe_all usr ps) db psets)"
  using fk
proof (induction psets)
  case Nil
  show ?case by (simp add: first_experiment_def)
next
  case (Cons ps psets)
  from Cons.prems have one: "length (experiments_of db ps) = 1" by simp
  from Cons have IH: "title_scan_psets safe_all db usr nu ng utm gfn psets =
           Inr (first_experiment
                  (\<lambda>ps. title_match db nu u ng gf ps \<and> accessible_to safe_all usr ps) db psets)"
    by simp
  have params: "title_scan_params nu ng utm gfn
        (filter (\<lambda>p. parameter_parameterset p = parameterset_id ps) (parameters db)) (False, False) =
      Inr (nu \<and> list_ex (user_folder_param u) (pset_params db ps),
           ng \<and> list_ex (group_folder_param gf) (pset_params db ps))"
    using title_scan_params_result [where ps = "pset_params db ps" and mu = False and mg = False,
        OF u g]
    by (simp add: pset_params_def)
  have cond: "(nu \<and> (nu \<and> list_ex (user_folder_param u) (pset_params db ps)) \<or>
               ng \<and> (ng \<and> list_ex (group_folder_param gf) (pset_params db ps)) \<or>
               \<not> nu \<and> \<not> ng) \<longleftrightarrow> title_match db nu u ng gf ps"
    using excl by (auto simp: title_match_def)
  have step: "title_scan_psets safe_all db usr nu ng utm gfn (ps # psets) =
      (if title_match db nu u ng gf ps
       then (if accessible_to safe_all usr ps then Inr (experiments_of db ps)
             else title_scan_psets safe_all db usr nu ng utm gfn psets)
       else title_scan_psets safe_all db usr nu ng utm gfn psets)"
    by (simp only: title_scan_psets.simps Let_def params sum.case prod.case cond
        accessible_exp_list_result [OF one] split: if_splits) simp
  show ?case
    by (simp only: step IH) (simp add: first_experiment_def)
qed

lemma first_experiment_length:
  assumes "\<forall>ps \<in> set psets. length (experiments_of db ps) = 1"
  shows "length (first_experiment wanted db psets) \<le> 1"
proof (cases "find wanted psets")
  case None
  then show ?thesis by (simp add: first_experiment_def)
next
  case (Some ps)
  then have "ps \<in> set psets" by (auto simp: find_Some_iff)
  with assms Some show ?thesis by (simp add: first_experiment_def)
qed


lemma titled_psets_subset: "set (titled_psets db sch t) \<subseteq> set (parametersets db)"
  by (auto simp: titled_psets_def)

lemma default_psets_subset: "set (default_psets db sch) \<subseteq> set (parametersets db)"
  by (auto simp: default_psets_def)

lemma foreign_keys_ok_on:
  "foreign_keys_ok db \<Longrightarrow> set psets \<subseteq> set (parametersets db) \<Longrightarrow>
     \<forall>ps \<in> set psets. length (experiments_of db ps) = 1"
  by (auto simp: foreign_keys_ok_def list_all_iff)

text \<open>
  C1, as amended: for a request whose parameters include \<^verbatim>\<open>title\<close> and a folder
  name, where the folder name that the folder structure requires is among the
  parameters, at most one account answers to the user folder name, there is exactly
  one schema of default experiments and every parameter set has exactly one
  experiment, \<^verbatim>\<open>obj_get_list\<close> returns the experiment
  of the first parameter set, in scan order over the default-experiment parameter sets
  whose experiment has the title, that has a \<^verbatim>\<open>user_folder_name\<close> parameter equal
  without regard to case to the matched user's user name or e-mail address (when the
  folder structure requires a user match), a \<^verbatim>\<open>group_folder_name\<close> parameter equal
  to the group folder name (when it requires a group match), and whose experiment is
  accessible to the requesting user; it returns the empty list when there is none.
  The list has at most one element.
\<close>

theorem title_query_result:
  assumes get: "GET (request b) = Some g"
    and title: "g ''title'' = Some t"
    and folder: "has_folder_name g"
    and user: "requires_user_match (effective_folder_structure g) \<Longrightarrow>
                 g ''user_folder_name'' = Some ufn \<and>
                 length (accounts_of (effective_folder_structure g) ufn (users db)) \<le> 1"
    and group: "requires_group_match (effective_folder_structure g) \<Longrightarrow>
                  g ''group_folder_name'' = Some gf"
    and sch: "filter (\<lambda>s. namespace s = default_experiment_namespace) (schemas db) = [sch]"
    and fk: "foreign_keys_ok db"
  shows "obj_get_list safe_all super_obj_get_list db b =
           Inr (first_experiment
                  (\<lambda>ps. title_match db
                          (requires_user_match (effective_folder_structure g))
                          (matched_user_of (effective_folder_structure g) ufn
                             (accounts_of (effective_folder_structure g) ufn (users db)))
                          (requires_group_match (effective_folder_structure g)) gf ps \<and>
                        accessible_to safe_all (request_user (request b)) ps)
                  db (titled_psets db sch t)) \<and>
         length (first_experiment
                  (\<lambda>ps. title_match db
                          (requires_user_match (effective_folder_structure g))
                          (matched_user_of (effective_folder_structure g) ufn
                             (accounts_of (effective_folder_structure g) ufn (users db)))
                          (requires_group_match (effective_folder_structure g)) gf ps \<and>
                        accessible_to safe_all (request_user (request b)) ps)
                  db (titled_psets db sch t)) \<le> 1"
proof
  let ?fs = "effective_folder_structure g"
  let ?m = "matched_user_of ?fs ufn (accounts_of ?fs ufn (users db))"
  have fks: "\<forall>ps \<in> set (titled_psets db sch t). length (experiments_of db ps) = 1"
    using fk titled_psets_subset by (rule foreign_keys_ok_on)
  have look: "requires_user_match ?fs \<Longrightarrow>
      g ''user_folder_name'' = Some ufn \<and>
      lookup_user_to_match (Some UnknownUser) (users db) ?fs ufn = Inr (Some ?m)"
    using user title_lookup_user by blast
  have prelude: "folder_prelude (Some UnknownUser) db g (guess_folder_structure (Some g)) =
      Inr (requires_user_match ?fs, requires_group_match ?fs,
           if requires_user_match ?fs then Some ?m else None,
           if requires_group_match ?fs then Some gf else None, sch)"
    using look group sch by (rule folder_prelude_result)
  have scan: "title_scan_psets safe_all db (request_user (request b))
        (requires_user_match ?fs) (requires_group_match ?fs)
        (if requires_user_match ?fs then Some ?m else None)
        (if requires_group_match ?fs then Some gf else None) (titled_psets db sch t) =
      Inr (first_experiment
             (\<lambda>ps. title_match db (requires_user_match ?fs) ?m (requires_group_match ?fs) gf ps \<and>
                   accessible_to safe_all (request_user (request b)) ps)
             db (titled_psets db sch t))"
    by (rule title_scan_psets_result) (simp_all add: structures_exclusive fks)
  show "obj_get_list safe_all super_obj_get_list db b =
           Inr (first_experiment
                  (\<lambda>ps. title_match db (requires_user_match ?fs) ?m (requires_group_match ?fs) gf ps \<and>
                        accessible_to safe_all (request_user (request b)) ps)
                  db (titled_psets db sch t))"
    using scan
    by (simp add: obj_get_list_def get title folder title_branch_def prelude titled_psets_def
        Let_def)
  show "length (first_experiment
                  (\<lambda>ps. title_match db (requires_user_match ?fs) ?m (requires_group_match ?fs) gf ps \<and>
                        accessible_to safe_all (request_user (request b)) ps)
                  db (titled_psets db sch t)) \<le> 1"
    using fks by (rule first_experiment_length)
qed


lemma uploader_scan_params_result:
  assumes u: "nu \<Longrightarrow> utm = Some u"
    and g: "gfn = Some gf \<or>
            gfn = None \<and> \<not> list_ex (\<lambda>p. parameter_name p = ''group_folder_name'') ps"
  shows "uploader_scan_params uu nu utm gfn ps (mup, mu, mg) =
           Inr (mup \<or> list_ex (uploader_param uu) ps,
                mu \<or> nu \<and> list_ex (user_folder_param u) ps,
                mg \<or> gfn = Some gf \<and> list_ex (group_folder_param gf) ps)"
  using g
proof (induction ps arbitrary: mup mu mg)
  case Nil
  then show ?case by simp
next
  case (Cons p ps)
  from Cons.prems have g': "gfn = Some gf \<or>
      gfn = None \<and> \<not> list_ex (\<lambda>p. parameter_name p = ''group_folder_name'') ps"
    by auto
  have user: "user_param_matches nu utm p = Inr (nu \<and> user_folder_param u p)"
    using u by (cases nu) (auto simp: user_param_matches_def read_local_def user_folder_param_def)
  have grp: "(if parameter_name p = ''group_folder_name''
              then (case read_local ''group_folder_name'' gfn of
                      Inl e \<Rightarrow> Inl e
                    | Inr g \<Rightarrow> Inr (string_value p = g))
              else Inr False) = Inr (gfn = Some gf \<and> group_folder_param gf p)"
    using Cons.prems by (auto simp: read_local_def group_folder_param_def)
  have upl: "(parameter_name p = ''uploader'' \<and> string_value p = uu) = uploader_param uu p"
    by (simp add: uploader_param_def)
  show ?case
    by (simp only: uploader_scan_params.simps Let_def upl user grp sum.case Cons.IH [OF g'])
       auto
qed

lemma uploader_scan_psets_result:
  assumes u: "nu \<Longrightarrow> utm = Some u"
    and g: "ng \<Longrightarrow> gfn = Some gf"
    and nog: "\<not> ng \<Longrightarrow> gfn = None \<and>
                (\<forall>ps \<in> set (scanned_psets
                              (\<lambda>ps. uploader_match db uu nu u ng gf ps \<and>
                                    accessible_to safe_all usr ps) psets).
                   \<not> list_ex (\<lambda>p. parameter_name p = ''group_folder_name'') (pset_params db ps))"
    and fk: "\<forall>ps \<in> set psets. length (experiments_of db ps) = 1"
  shows "uploader_scan_psets safe_all db usr uu nu ng utm gfn psets =
           Inr (first_experiment
                  (\<lambda>ps. uploader_match db uu nu u ng gf ps \<and> accessible_to safe_all usr ps)
                  db psets)"
  using nog fk
proof (induction psets)
  case Nil
  show ?case by (simp add: first_experiment_def)
next
  case (Cons ps psets)
  let ?wanted = "\<lambda>ps. uploader_match db uu nu u ng gf ps \<and> accessible_to safe_all usr ps"
  from Cons.prems have one: "length (experiments_of db ps) = 1" by simp
  have first: "ps \<in> set (scanned_psets ?wanted (ps # psets))"
    by simp
  have bound: "gfn = Some gf \<or>
      gfn = None \<and> \<not> list_ex (\<lambda>p. parameter_name p = ''group_folder_name'') (pset_params db ps)"
  proof (cases ng)
    case True
    with g show ?thesis by simp
  next
    case False
    with Cons.prems(1) first show ?thesis by blast
  qed
  have params: "uploader_scan_params uu nu utm gfn
        (filter (\<lambda>p. parameter_parameterset p = parameterset_id ps) (parameters db))
        (False, False, False) =
      Inr (list_ex (uploader_param uu) (pset_params db ps),
           nu \<and> list_ex (user_folder_param u) (pset_params db ps),
           gfn = Some gf \<and> list_ex (group_folder_param gf) (pset_params db ps))"
    using uploader_scan_params_result [where ps = "pset_params db ps" and mup = False
        and mu = False and mg = False, OF u bound]
    by (simp add: pset_params_def)
  have cond: "(list_ex (uploader_param uu) (pset_params db ps) \<and>
               (nu \<and> (nu \<and> list_ex (user_folder_param u) (pset_params db ps)) \<or>
                ng \<and> (gfn = Some gf \<and> list_ex (group_folder_param gf) (pset_params db ps)))) \<longleftrightarrow>
              uploader_match db uu nu u ng gf ps"
    using g by (auto simp: uploader_match_def)
  have step: "uploader_scan_psets safe_all db usr uu nu ng utm gfn (ps # psets) =
      (if uploader_match db uu nu u ng gf ps
       then (if accessible_to safe_all usr ps then Inr (experiments_of db ps)
             else uploader_scan_psets safe_all db usr uu nu ng utm gfn psets)
       else uploader_scan_psets safe_all db usr uu nu ng utm gfn psets)"
    by (simp only: uploader_scan_psets.simps Let_def params sum.case prod.case cond
        accessible_exp_list_result [OF one] split: if_splits) simp
  show ?case
  proof (cases "?wanted ps")
    case True
    then show ?thesis
      by (simp only: step) (simp add: first_experiment_def)
  next
    case False
    then have rest: "scanned_psets ?wanted (ps # psets) = ps # scanned_psets ?wanted psets"
      by auto
    have "\<not> ng \<Longrightarrow> gfn = None \<and>
        (\<forall>ps \<in> set (scanned_psets ?wanted psets).
           \<not> list_ex (\<lambda>p. parameter_name p = ''group_folder_name'') (pset_params db ps))"
      using Cons.prems(1) unfolding rest by simp
    moreover from Cons.prems(2) have "\<forall>ps \<in> set psets. length (experiments_of db ps) = 1"
      by simp
    ultimately have IH: "uploader_scan_psets safe_all db usr uu nu ng utm gfn psets =
        Inr (first_experiment ?wanted db psets)"
      by (rule Cons.IH)
    from False show ?thesis
      by (simp only: step IH) (auto simp: first_experiment_def)
  qed
qed

text \<open>
  C2, as amended: for a request whose parameters include \<^verbatim>\<open>uploader\<close> and a folder
  name and no \<^verbatim>\<open>title\<close>, where the folder name that the folder structure requires
  is among the parameters, exactly one account answers to the user folder name, there
  is exactly one schema of default experiments, every parameter set has exactly one
  experiment and, unless a group match is required,
  no parameter set that the scan reads (those up to the first one returned) has a
  \<^verbatim>\<open>group_folder_name\<close> parameter, \<^verbatim>\<open>obj_get_list\<close> scans the default-experiment
  parameter sets and returns the experiment of the first one that contains both an
  \<^verbatim>\<open>uploader\<close> parameter equal to the UUID and a matching user folder name or a
  matching group folder name, and whose experiment is accessible to the requesting
  user; it returns the empty list when no parameter set does.
\<close>

theorem uploader_query_result:
  assumes get: "GET (request b) = Some g"
    and no_title: "g ''title'' = None"
    and uploader: "g ''uploader'' = Some uu"
    and folder: "has_folder_name g"
    and user: "requires_user_match (effective_folder_structure g) \<Longrightarrow>
                 g ''user_folder_name'' = Some ufn \<and>
                 accounts_of (effective_folder_structure g) ufn (users db) = [u]"
    and group: "requires_group_match (effective_folder_structure g) \<Longrightarrow>
                  g ''group_folder_name'' = Some gf"
    and no_group: "\<not> requires_group_match (effective_folder_structure g) \<Longrightarrow>
                     \<forall>ps \<in> set (scanned_psets
                                   (\<lambda>ps. uploader_match db uu
                                           (requires_user_match (effective_folder_structure g))
                                           (KnownUser u)
                                           (requires_group_match (effective_folder_structure g))
                                           gf ps \<and>
                                         accessible_to safe_all (request_user (request b)) ps)
                                   (default_psets db sch)).
                       \<not> list_ex (\<lambda>p. parameter_name p = ''group_folder_name'') (pset_params db ps)"
    and sch: "filter (\<lambda>s. namespace s = default_experiment_namespace) (schemas db) = [sch]"
    and fk: "foreign_keys_ok db"
  shows "obj_get_list safe_all super_obj_get_list db b =
           Inr (first_experiment
                  (\<lambda>ps. uploader_match db uu
                          (requires_user_match (effective_folder_structure g)) (KnownUser u)
                          (requires_group_match (effective_folder_structure g)) gf ps \<and>
                        accessible_to safe_all (request_user (request b)) ps)
                  db (default_psets db sch)) \<and>
         length (first_experiment
                  (\<lambda>ps. uploader_match db uu
                          (requires_user_match (effective_folder_structure g)) (KnownUser u)
                          (requires_group_match (effective_folder_structure g)) gf ps \<and>
                        accessible_to safe_all (request_user (request b)) ps)
                  db (default_psets db sch)) \<le> 1"
proof
  let ?fs = "effective_folder_structure g"
  let ?wanted = "\<lambda>ps. uploader_match db uu (requires_user_match ?fs) (KnownUser u)
                        (requires_group_match ?fs) gf ps \<and>
                      accessible_to safe_all (request_user (request b)) ps"
  have fks: "\<forall>ps \<in> set (default_psets db sch). length (experiments_of db ps) = 1"
    using fk default_psets_subset by (rule foreign_keys_ok_on)
  have look: "requires_user_match ?fs \<Longrightarrow>
      g ''user_folder_name'' = Some ufn \<and>
      lookup_user_to_match None (users db) ?fs ufn = Inr (Some (KnownUser u))"
    using user uploader_lookup_user by blast
  have prelude: "folder_prelude None db g (guess_folder_structure (Some g)) =
      Inr (requires_user_match ?fs, requires_group_match ?fs,
           if requires_user_match ?fs then Some (KnownUser u) else None,
           if requires_group_match ?fs then Some gf else None, sch)"
    using look group sch by (rule folder_prelude_result)
  have bound_user: "requires_user_match ?fs \<Longrightarrow>
      (if requires_user_match ?fs then Some (KnownUser u) else None) = Some (KnownUser u)"
    by simp
  have bound_group: "requires_group_match ?fs \<Longrightarrow>
      (if requires_group_match ?fs then Some gf else None) = Some gf"
    by simp
  have unbound_group: "\<not> requires_group_match ?fs \<Longrightarrow>
      (if requires_group_match ?fs then Some gf else None) = None \<and>
      (\<forall>ps \<in> set (scanned_psets ?wanted (default_psets db sch)).
         \<not> list_ex (\<lambda>p. parameter_name p = ''group_folder_name'') (pset_params db ps))"
    using no_group by simp
  have scan: "uploader_scan_psets safe_all db (request_user (request b)) uu
        (requires_user_match ?fs) (requires_group_match ?fs)
        (if requires_user_match ?fs then Some (KnownUser u) else None)
        (if requires_group_match ?fs then Some gf else None) (default_psets db sch) =
      Inr (first_experiment ?wanted db (default_psets db sch))"
    using bound_user bound_group unbound_group fks by (rule uploader_scan_psets_result)
  show "obj_get_list safe_all super_obj_get_list db b =
           Inr (first_experiment ?wanted db (default_psets db sch))"
    using scan
    by (simp add: obj_get_list_def get no_title uploader folder uploader_branch_def prelude
        default_psets_def Let_def)
  show "length (first_experiment ?wanted db (default_psets db sch)) \<le> 1"
    using fks by (rule first_experiment_length)
qed

lemmas example_defs = query_def example_database_def alice_def bob_def default_schema_def
  alice_experiment_def group_experiment_def safe_everything_def super_lists_nothing_def
  default_experiment_namespace_def

lemmas folder_defs = effective_folder_structure_def guess_from_user_folder_def
  requires_user_match_def requires_group_match_def startswith_def accounts_of_def
  pset_params_def user_folder_param_def group_folder_param_def accessible_to_def
  experiments_of_def first_experiment_def foreign_keys_ok_def
  lower_def lower_char_def is_upper_def strip_def is_space_def

lemmas run_defs = obj_get_list_def has_folder_name_def guess_folder_structure_def
  guess_from_user_folder_def title_branch_def uploader_branch_def folder_prelude_def
  startswith_def lookup_user_to_match_def objects_get_def read_local_def
  user_param_matches_def accessible_exp_list_def lower_def lower_char_def is_upper_def
  strip_def is_space_def Let_def

text \<open>
  Witness for C1: Alice's default experiment is found by title and user folder, the
  group's by title and group folder.
\<close>

theorem title_query_result_witness:
  "obj_get_list safe_everything super_lists_nothing example_database
     (query [(''title'', ''Microscope data''), (''user_folder_name'', ''alice'')]) =
   Inr [alice_experiment] \<and>
   obj_get_list safe_everything super_lists_nothing example_database
     (query [(''title'', ''Microscope data''), (''group_folder_name'', ''Lab A'')]) =
   Inr [group_experiment]"
proof
  let ?kvs = "[(''title'', ''Microscope data''), (''user_folder_name'', ''alice'')]"
  have get: "GET (request (query ?kvs)) = Some (map_of ?kvs)"
    by (simp add: query_def)
  have title: "map_of ?kvs ''title'' = Some ''Microscope data''"
    by simp
  have folder: "has_folder_name (map_of ?kvs)"
    by (simp add: has_folder_name_def)
  have user: "map_of ?kvs ''user_folder_name'' = Some ''alice'' \<and>
      length (accounts_of (effective_folder_structure (map_of ?kvs)) ''alice''
                (users example_database)) \<le> 1"
    by (simp add: example_defs folder_defs)
  have group: "requires_group_match (effective_folder_structure (map_of ?kvs)) \<Longrightarrow>
      map_of ?kvs ''group_folder_name'' = Some ''Lab A''"
    by (simp add: folder_defs)
  have sch: "filter (\<lambda>s. namespace s = default_experiment_namespace) (schemas example_database) =
      [default_schema]"
    by (simp add: example_defs)
  have fk: "foreign_keys_ok example_database"
    by (simp add: example_defs folder_defs)
  from title_query_result [OF get title folder user group sch fk,
      of safe_everything super_lists_nothing]
  show "obj_get_list safe_everything super_lists_nothing example_database (query ?kvs) =
      Inr [alice_experiment]"
    by (simp add: example_defs folder_defs matched_user_of_def title_match_def titled_psets_def)
next
  let ?kvs = "[(''title'', ''Microscope data''), (''group_folder_name'', ''Lab A'')]"
  have get: "GET (request (query ?kvs)) = Some (map_of ?kvs)"
    by (simp add: query_def)
  have title: "map_of ?kvs ''title'' = Some ''Microscope data''"
    by simp
  have folder: "has_folder_name (map_of ?kvs)"
    by (simp add: has_folder_name_def)
  have user: "requires_user_match (effective_folder_structure (map_of ?kvs)) \<Longrightarrow>
      map_of ?kvs ''user_folder_name'' = Some ''alice'' \<and>
      length (accounts_of (effective_folder_structure (map_of ?kvs)) ''alice''
                (users example_database)) \<le> 1"
    by (simp add: folder_defs)
  have group: "map_of ?kvs ''group_folder_name'' = Some ''Lab A''"
    by simp
  have sch: "filter (\<lambda>s. namespace s = default_experiment_namespace) (schemas example_database) =
      [default_schema]"
    by (simp add: example_defs)
  have fk: "foreign_keys_ok example_database"
    by (simp add: example_defs folder_defs)
  from title_query_result [OF get title folder user group sch fk,
      of safe_everything super_lists_nothing]
  show "obj_get_list safe_everything super_lists_nothing example_database (query ?kvs) =
      Inr [group_experiment]"
    by (simp add: example_defs folder_defs matched_user_of_def title_match_def titled_psets_def)
qed

text \<open>
  C1, as written, promises a list for every request with \<^verbatim>\<open>title\<close> and one of
  the folder names. A request with a title and a blank group folder name gets the
  guess \<^verbatim>\<open>Username / ...\<close>, and reading the absent \<^verbatim>\<open>user_folder_name\<close> raises
  \<^verbatim>\<open>KeyError\<close>.
\<close>

theorem title_query_counterexample:
  "obj_get_list safe_everything super_lists_nothing example_database
     (query [(''title'', ''Microscope data''), (''group_folder_name'', '' '')]) =
   Inl (KeyError ''user_folder_name'')"
  by (simp add: example_defs run_defs)

text \<open>
  Witness for C2: Alice's default experiment is found by UUID and user folder, the
  scan reading the first parameter set only; the group's default experiment is found
  by UUID and group folder.
\<close>

theorem uploader_query_result_witness:
  "obj_get_list safe_everything super_lists_nothing example_database
     (query [(''uploader'', ''uuid-1''), (''user_folder_name'', ''alice'')]) =
   Inr [alice_experiment] \<and>
   obj_get_list safe_everything super_lists_nothing example_database
     (query [(''uploader'', ''uuid-1''), (''group_folder_name'', ''Lab A'')]) =
   Inr [group_experiment]"
proof
  let ?kvs = "[(''uploader'', ''uuid-1''), (''user_folder_name'', ''alice'')]"
  let ?b = "query ?kvs"
  have get: "GET (request ?b) = Some (map_of ?kvs)"
    by (simp add: query_def)
  have no_title: "map_of ?kvs ''title'' = None"
    by simp
  have uploader: "map_of ?kvs ''uploader'' = Some ''uuid-1''"
    by simp
  have folder: "has_folder_name (map_of ?kvs)"
    by (simp add: has_folder_name_def)
  have needs_user: "requires_user_match (effective_folder_structure (map_of ?kvs))"
    by (simp add: folder_defs)
  have user: "map_of ?kvs ''user_folder_name'' = Some ''alice'' \<and>
      accounts_of (effective_folder_structure (map_of ?kvs)) ''alice'' (users example_database) =
        [alice]"
    by (simp add: example_defs folder_defs)
  have group: "requires_group_match (effective_folder_structure (map_of ?kvs)) \<Longrightarrow>
      map_of ?kvs ''group_folder_name'' = Some ''Lab A''"
    by (simp add: folder_defs)
  have scanned: "scanned_psets
      (\<lambda>ps. uploader_match example_database ''uuid-1''
              (requires_user_match (effective_folder_structure (map_of ?kvs))) (KnownUser alice)
              (requires_group_match (effective_folder_structure (map_of ?kvs))) ''Lab A'' ps \<and>
            accessible_to safe_everything (request_user (request ?b)) ps)
      (default_psets example_database default_schema) =
      [\<lparr>parameterset_id = 100, parameterset_schema = 1, parameterset_experiment = 10\<rparr>]"
    by (simp add: example_defs folder_defs uploader_param_def uploader_match_def
        default_psets_def)
  have no_group: "\<forall>ps \<in> set (scanned_psets
      (\<lambda>ps. uploader_match example_database ''uuid-1''
              (requires_user_match (effective_folder_structure (map_of ?kvs))) (KnownUser alice)
              (requires_group_match (effective_folder_structure (map_of ?kvs))) ''Lab A'' ps \<and>
            accessible_to safe_everything (request_user (request ?b)) ps)
      (default_psets example_database default_schema)).
      \<not> list_ex (\<lambda>p. parameter_name p = ''group_folder_name'') (pset_params example_database ps)"
    unfolding scanned by (simp add: example_defs pset_params_def)
  have sch: "filter (\<lambda>s. namespace s = default_experiment_namespace) (schemas example_database) =
      [default_schema]"
    by (simp add: example_defs)
  have fk: "foreign_keys_ok example_database"
    by (simp add: example_defs folder_defs)
  from uploader_query_result [OF get no_title uploader folder user group no_group sch fk,
      of super_lists_nothing]
  show "obj_get_list safe_everything super_lists_nothing example_database ?b =
      Inr [alice_experiment]"
    by (simp add: example_defs folder_defs uploader_param_def uploader_match_def
        default_psets_def)
next
  let ?kvs = "[(''uploader'', ''uuid-1''), (''group_folder_name'', ''Lab A'')]"
  let ?b = "query ?kvs"
  have get: "GET (request ?b) = Some (map_of ?kvs)"
    by (simp add: query_def)
  have no_title: "map_of ?kvs ''title'' = None"
    by simp
  have uploader: "map_of ?kvs ''uploader'' = Some ''uuid-1''"
    by simp
  have folder: "has_folder_name (map_of ?kvs)"
    by (simp add: has_folder_name_def)
  have needs_group: "requires_group_match (effective_folder_structure (map_of ?kvs))"
    by (simp add: folder_defs)
  have user: "requires_user_match (effective_folder_structure (map_of ?kvs)) \<Longrightarrow>
      map_of ?kvs ''user_folder_name'' = Some ''alice'' \<and>
      accounts_of (effective_folder_structure (map_of ?kvs)) ''alice'' (users example_database) =
        [alice]"
    by (simp add: folder_defs)
  have group: "map_of ?kvs ''group_folder_name'' = Some ''Lab A''"
    by simp
  have sch: "filter (\<lambda>s. namespace s = default_experiment_namespace) (schemas example_database) =
      [default_schema]"
    by (simp add: example_defs)
  have fk: "foreign_keys_ok example_database"
    by (simp add: example_defs folder_defs)
  from uploader_query_result [OF get no_title uploader folder user group _ sch fk,
      of safe_everything super_lists_nothing] needs_group
  show "obj_get_list safe_everything super_lists_nothing example_database ?b =
      Inr [group_experiment]"
    by (simp add: example_defs folder_defs uploader_param_def uploader_match_def
        default_psets_def)
qed

text \<open>
  C2, as written, speaks of every request with \<^verbatim>\<open>uploader\<close> and a folder name.
  When the request also has a \<^verbatim>\<open>title\<close> the title branch answers it: an
  experiment is returned although no parameter set has an \<^verbatim>\<open>uploader\<close> parameter
  equal to the UUID.
\<close>

theorem uploader_query_counterexample:
  "obj_get_list safe_everything super_lists_nothing example_database
     (query [(''title'', ''Microscope data''), (''uploader'', ''uuid-2''),
             (''user_folder_name'', ''alice'')]) =
   Inr [alice_experiment]"
  by (simp add: example_defs run_defs)

text \<open>
  C10 says that the uploader branch completes when the user folder name is no
  account, the placeholder \<^verbatim>\<open>UnknownUser\<close> and the variable
  \<^verbatim>\<open>group_folder_name\<close> being in scope wherever they are read. The code raises
  \<^verbatim>\<open>UnboundLocalError\<close> for such a request, and also for a known user as soon as
  the scan meets a \<^verbatim>\<open>group_folder_name\<close> parameter; the title branch, with the same
  lookup, returns the empty list for the unknown user.
\<close>

theorem unknown_user_unbound:
  "obj_get_list safe_everything super_lists_nothing example_database
     (query [(''uploader'', ''uuid-1''), (''user_folder_name'', ''nobody'')]) =
   Inl (UnboundLocalError ''UnknownUser'') \<and>
   obj_get_list safe_everything super_lists_nothing example_database
     (query [(''uploader'', ''uuid-1''), (''user_folder_name'', ''bob'')]) =
   Inl (UnboundLocalError ''group_folder_name'') \<and>
   obj_get_list safe_everything super_lists_nothing example_database
     (query [(''title'', ''Microscope data''), (''user_folder_name'', ''nobody'')]) =
   Inr []"
  by (simp add: example_defs run_defs)

section \<open>Upserting the settings of an uploader\<close>

lemma store_row_accepted:
  "\<not> violates_unique pk key rows r \<Longrightarrow>
     model_save pk set_pk key rows r =
       Inr (fst (store_row pk set_pk rows r), snd (store_row pk set_pk rows r))"
  by (simp add: model_save_def)

lemma map_of_replace_row:
  assumes "distinct (map pk rows)" and "distinct (map key rows)"
    and "s \<in> set rows" and "key r = key s"
  shows "map_of (map (\<lambda>x. (key x, val x)) (map (\<lambda>x. if pk x = pk s then r else x) rows)) =
           (map_of (map (\<lambda>x. (key x, val x)) rows))(key s \<mapsto> val r)"
  using assms
proof (induction rows)
  case Nil
  then show ?case by simp
next
  case (Cons x xs)
  let ?f = "\<lambda>x. if pk x = pk s then r else x"
  let ?kv = "\<lambda>x. (key x, val x)"
  show ?case
  proof (cases "pk x = pk s")
    case True
    have "x = s"
    proof (rule ccontr)
      assume "x \<noteq> s"
      with Cons.prems(3) have "s \<in> set xs" by simp
      then have "pk s \<in> set (map pk xs)" by simp
      with True Cons.prems(1) show False by simp
    qed
    from True Cons.prems(1) have "pk s \<notin> pk ` set xs" by simp
    then have "\<forall>y \<in> set xs. pk y \<noteq> pk s" by (metis imageI)
    then have same: "map ?f xs = xs" by (induction xs) auto
    from True \<open>x = s\<close> same Cons.prems(4) show ?thesis by (auto simp: fun_eq_iff)
  next
    case False
    then have "x \<noteq> s" by auto
    with Cons.prems(3) have in_xs: "s \<in> set xs" by simp
    then have "key s \<in> set (map key xs)" by simp
    with Cons.prems(2) have neq: "key x \<noteq> key s" by auto
    from Cons.prems in_xs
    have IH: "map_of (map ?kv (map ?f xs)) = (map_of (map ?kv xs))(key s \<mapsto> val r)"
      by (intro Cons.IH) simp_all
    have "map_of (map ?kv (map ?f (x # xs))) = (map_of (map ?kv (map ?f xs)))(key x \<mapsto> val x)"
      using False by simp
    also have "\<dots> = ((map_of (map ?kv xs))(key s \<mapsto> val r))(key x \<mapsto> val x)"
      by (simp only: IH)
    also have "\<dots> = ((map_of (map ?kv xs))(key x \<mapsto> val x))(key s \<mapsto> val r)"
      using neq by (simp add: fun_upd_twist)
    finally have "map_of (map ?kv (map ?f (x # xs))) =
        ((map_of (map ?kv xs))(key x \<mapsto> val x))(key s \<mapsto> val r)" .
    moreover have "map_of (map ?kv (x # xs)) = (map_of (map ?kv xs))(key x \<mapsto> val x)"
      by simp
    ultimately show ?thesis by (simp only:)
  qed
qed

lemma dom_settings_map: "dom (settings_map rows) = setting_pair ` set rows"
  by (simp add: settings_map_def dom_map_of_conv_image_fst image_image)

lemma setting_filter_le_one:
  "settings_unique rows \<Longrightarrow>
     length (filter (\<lambda>s. setting_uploader s = uid \<and> setting_key s = k) rows) \<le> 1"
proof -
  assume "settings_unique rows"
  then have "length (filter (\<lambda>s. setting_pair s = (uid, k)) rows) \<le> 1"
    unfolding settings_unique_def by (rule distinct_map_filter_le_one)
  then show ?thesis by (simp add: setting_pair_def)
qed

lemma upsert_setting_result:
  assumes ok: "primary_keys_ok setting_id rows"
    and uniq: "settings_unique rows"
    and entry: "entry_of setting (k, v)"
  shows "\<exists>rows'. upsert_setting uid setting rows = Inr rows' \<and>
           primary_keys_ok setting_id rows' \<and> settings_unique rows' \<and>
           settings_map rows' = (settings_map rows)((uid, k) \<mapsto> v)"
proof -
  let ?found = "filter (\<lambda>s. setting_uploader s = uid \<and> setting_key s = k) rows"
  let ?set_pk = "\<lambda>i r. r\<lparr>setting_id := Some i\<rparr>"
  from entry have key: "py_getitem setting ''key'' = Inr k"
    and val: "py_getitem setting ''value'' = Inr v"
    by (simp_all add: entry_of_def)
  from ok have some: "\<forall>x \<in> set rows. setting_id x \<noteq> None"
    and dist: "distinct (map setting_id rows)"
    by (auto simp: primary_keys_ok_def list_all_iff)
  have pk_set: "\<And>i x. setting_id (?set_pk i x) = Some i" by simp
  have key_set: "\<And>i x. setting_pair (?set_pk i x) = setting_pair x"
    by (simp add: setting_pair_def)
  from uniq have uniq': "distinct (map setting_pair rows)"
    by (simp add: settings_unique_def)
  have le: "length ?found \<le> 1"
    using uniq by (rule setting_filter_le_one)
  show ?thesis
  proof (cases ?found)
    case Nil
    let ?new = "\<lparr>setting_id = None, setting_uploader = uid, setting_key = k, setting_value = v\<rparr>"
    from Nil have absent: "\<forall>x \<in> set rows. setting_pair x \<noteq> (uid, k)"
      by (auto simp: filter_empty_conv setting_pair_def)
    then have nv: "\<not> violates_unique setting_id setting_pair rows ?new"
      by (auto simp: violates_unique_def list_ex_iff setting_pair_def)
    have run: "upsert_setting uid setting rows = Inr (save_uploader_setting rows ?new)"
      by (simp add: upsert_setting_def key val objects_get_def Nil)
    have rows': "save_uploader_setting rows ?new =
        rows @ [?new\<lparr>setting_id := Some (next_id (map setting_id rows))\<rparr>]"
      by (simp add: save_uploader_setting_def store_row_def Let_def)
    from model_save_invariant [OF pk_set key_set ok uniq' store_row_accepted [OF nv]]
    have inv: "primary_keys_ok setting_id (save_uploader_setting rows ?new) \<and>
        settings_unique (save_uploader_setting rows ?new)"
      by (simp add: save_uploader_setting_def settings_unique_def prod_eq_iff)
    from absent have "(uid, k) \<notin> dom (settings_map rows)"
      unfolding dom_settings_map by (metis imageE)
    then have "settings_map (save_uploader_setting rows ?new) = (settings_map rows)((uid, k) \<mapsto> v)"
      by (auto simp: rows' settings_map_def setting_pair_def map_add_def fun_eq_iff
          split: option.splits)
    with run inv show ?thesis by simp
  next
    case (Cons s rest)
    with le have found: "?found = [s]" by (cases rest) simp_all
    then have "s \<in> set ?found" by simp
    then have s_in: "s \<in> set rows" and s_pair: "setting_pair s = (uid, k)"
      by (simp_all add: setting_pair_def)
    from s_in some obtain i where pk: "setting_id s = Some i" by auto
    let ?upd = "s\<lparr>setting_value := v\<rparr>"
    have nv: "\<not> violates_unique setting_id setting_pair rows ?upd"
    proof -
      have "setting_id x = setting_id s" if "x \<in> set rows" and "setting_pair x = setting_pair s" for x
      proof -
        from uniq' that s_in have "x = s"
          by (meson distinct_map inj_onD)
        then show ?thesis by simp
      qed
      then show ?thesis
        by (auto simp: violates_unique_def list_ex_iff setting_pair_def)
    qed
    have run: "upsert_setting uid setting rows = Inr (save_uploader_setting rows ?upd)"
      by (simp add: upsert_setting_def key val objects_get_def found)
    from s_in pk have ex: "list_ex (\<lambda>r'. setting_id r' = Some i) rows"
      by (auto simp: list_ex_iff)
    have rows': "save_uploader_setting rows ?upd =
        map (\<lambda>x. if setting_id x = setting_id s then ?upd else x) rows"
      by (simp add: save_uploader_setting_def store_row_def pk ex)
    from model_save_invariant [OF pk_set key_set ok uniq' store_row_accepted [OF nv]]
    have inv: "primary_keys_ok setting_id (save_uploader_setting rows ?upd) \<and>
        settings_unique (save_uploader_setting rows ?upd)"
      by (simp add: save_uploader_setting_def settings_unique_def prod_eq_iff)
    have "setting_pair ?upd = setting_pair s"
      by (simp add: setting_pair_def)
    with dist uniq' s_in
    have "map_of (map (\<lambda>x. (setting_pair x, setting_value x))
                   (map (\<lambda>x. if setting_id x = setting_id s then ?upd else x) rows)) =
          (map_of (map (\<lambda>x. (setting_pair x, setting_value x)) rows))
            (setting_pair s \<mapsto> setting_value ?upd)"
      by (rule map_of_replace_row)
    then have "settings_map (save_uploader_setting rows ?upd) = (settings_map rows)((uid, k) \<mapsto> v)"
      by (simp add: rows' settings_map_def s_pair)
    with run inv show ?thesis by simp
  qed
qed

lemma upsert_setting_preserves:
  assumes ok: "primary_keys_ok setting_id rows"
    and uniq: "settings_unique rows"
    and run: "upsert_setting uid setting rows = Inr rows'"
  shows "primary_keys_ok setting_id rows' \<and> settings_unique rows'"
proof -
  from run obtain k where key: "py_getitem setting ''key'' = Inr k"
    by (cases "py_getitem setting ''key''") (simp_all add: upsert_setting_def)
  from run key obtain v where val: "py_getitem setting ''value'' = Inr v"
    by (cases "py_getitem setting ''value''")
       (auto simp: upsert_setting_def split: sum.splits error.splits)
  from key val have "entry_of setting (k, v)"
    by (simp add: entry_of_def)
  from upsert_setting_result [OF ok uniq this, of uid] run show ?thesis
    by auto
qed

lemma upsert_settings_preserves:
  "primary_keys_ok setting_id rows \<Longrightarrow> settings_unique rows \<Longrightarrow>
     primary_keys_ok setting_id (snd (upsert_settings uid settings rows)) \<and>
     settings_unique (snd (upsert_settings uid settings rows))"
proof (induction settings arbitrary: rows)
  case Nil
  then show ?case by simp
next
  case (Cons setting settings)
  show ?case
  proof (cases "upsert_setting uid setting rows")
    case (Inl e)
    then have "upsert_settings uid (setting # settings) rows = (Some e, rows)"
      by simp
    with Cons.prems show ?thesis by (simp only: snd_conv)
  next
    case (Inr rows')
    then have eq: "upsert_settings uid (setting # settings) rows =
        upsert_settings uid settings rows'"
      by simp
    from Cons.prems Inr have "primary_keys_ok setting_id rows'" and "settings_unique rows'"
      using upsert_setting_preserves by blast+
    then show ?thesis
      unfolding eq by (rule Cons.IH)
  qed
qed

lemma upsert_settings_result:
  assumes "entries_of settings kvs"
    and "primary_keys_ok setting_id rows" and "settings_unique rows"
  shows "\<exists>rows'. upsert_settings uid settings rows = (None, rows') \<and>
           settings_map rows' =
             settings_map rows ++ map_of (map (\<lambda>kv. ((uid, fst kv), snd kv)) (rev kvs))"
  using assms unfolding entries_of_def
proof (induction settings kvs arbitrary: rows rule: list_all2_induct)
  case Nil
  then show ?case by simp
next
  case (Cons setting settings kv kvs)
  from Cons.hyps(1) have "entry_of setting (fst kv, snd kv)" by simp
  from upsert_setting_result [OF Cons.prems(1) Cons.prems(2) this, of uid]
  obtain rows1 where run1: "upsert_setting uid setting rows = Inr rows1"
    and ok1: "primary_keys_ok setting_id rows1" and uniq1: "settings_unique rows1"
    and map1: "settings_map rows1 = (settings_map rows)((uid, fst kv) \<mapsto> snd kv)"
    by blast
  from Cons.IH [OF ok1 uniq1]
  obtain rows' where run: "upsert_settings uid settings rows1 = (None, rows')"
    and map': "settings_map rows' =
        settings_map rows1 ++ map_of (map (\<lambda>kv. ((uid, fst kv), snd kv)) (rev kvs))"
    by blast
  let ?f = "\<lambda>kv. ((uid, fst kv), snd kv)"
  have "map_of (map ?f (rev (kv # kvs))) =
      [(uid, fst kv) \<mapsto> snd kv] ++ map_of (map ?f (rev kvs))"
    by simp
  then have "settings_map rows ++ map_of (map ?f (rev (kv # kvs))) =
      (settings_map rows ++ [(uid, fst kv) \<mapsto> snd kv]) ++ map_of (map ?f (rev kvs))"
    by (simp only: map_add_assoc)
  also have "settings_map rows ++ [(uid, fst kv) \<mapsto> snd kv] = settings_map rows1"
    by (simp add: map1)
  finally have "settings_map rows' = settings_map rows ++ map_of (map ?f (rev (kv # kvs)))"
    by (simp only: map')
  moreover from run1 run have "upsert_settings uid (setting # settings) rows = (None, rows')"
    by simp
  ultimately show ?case by blast
qed

lemma store_row_member:
  "r \<in> set rows' \<or> pk r = None" if "store_row pk set_pk rows r = (rows', r')"
  using that by (auto simp: store_row_def Let_def list_ex_iff split: option.splits if_splits)


lemma settings_upsert_run:
  assumes existing: "uploader_id (obj b) = Some uid" and nonzero: "uid \<noteq> 0"
    and payload: "map_of (data b) ''settings'' = Some (PList settings)"
    and entries: "entries_of settings kvs"
    and keys: "primary_keys_ok setting_id (uploader_settings db)"
    and uniq: "settings_unique (uploader_settings db)"
    and mac: "\<not> violates_unique uploader_id mac_address (uploaders db) (obj b)"
  shows "\<exists>db' b'. hydrate_m2m now super_hydrate_m2m db b = super_hydrate_m2m db' b' \<and>
           settings_map (uploader_settings db') =
             settings_map (uploader_settings db) ++
             map_of (map (\<lambda>kv. ((uid, fst kv), snd kv)) (rev kvs)) \<and>
           settings_unique (uploader_settings db') \<and>
           map_of (obj_attrs b') ''settings_updated'' = Some (PTime now) \<and>
           obj b' = obj b \<and>
           obj b \<in> set (uploaders db') \<and>
           data b' = dict_del (data b) ''settings'' \<and>
           map_of (data b') ''settings'' = None"
proof -
  let ?saved = "store_row uploader_id (\<lambda>i r. r\<lparr>uploader_id := Some i\<rparr>) (uploaders db) (obj b)"
  from upsert_settings_result [OF entries keys uniq, of uid]
  obtain rows' where run: "upsert_settings uid settings (uploader_settings db) = (None, rows')"
    and map': "settings_map rows' =
        settings_map (uploader_settings db) ++
        map_of (map (\<lambda>kv. ((uid, fst kv), snd kv)) (rev kvs))"
    by blast
  from upsert_settings_preserves [OF keys uniq, of uid settings] run
  have uniq': "settings_unique rows'" by simp
  from payload have has: "dict_has (data b) ''settings''"
    by (auto simp: dict_has_def dest: map_of_SomeD intro: rev_image_eqI)
  from payload have get: "dict_get (data b) ''settings'' = Inr (PList settings)"
    by (simp add: dict_get_def)
  from mac have save: "save_uploader (uploaders db) (obj b) = Inr (fst ?saved, snd ?saved)"
    by (simp add: save_uploader_def model_save_def)
  have snd_saved: "snd ?saved = obj b"
    using existing by (simp add: store_row_def)
  have stored: "obj b \<in> set (fst ?saved)"
    using store_row_member [of uploader_id _ "uploaders db" "obj b" "fst ?saved" "snd ?saved"]
      existing
    by simp
  let ?db' = "db\<lparr>uploader_settings := rows', uploaders := fst ?saved\<rparr>"
  let ?b' = "b\<lparr>data := dict_del (data b) ''settings'',
               obj_attrs := dict_set (obj_attrs b) ''settings_updated'' (PTime now),
               obj := obj b\<rparr>"
  have "hydrate_m2m now super_hydrate_m2m db b = super_hydrate_m2m ?db' ?b'"
    using snd_saved
    by (simp add: hydrate_m2m_def existing nonzero has get py_iter_def run save Let_def)
  moreover have "map_of (dict_del (data b) ''settings'') ''settings'' = None"
    by (auto simp: dict_del_def map_of_eq_None_iff)
  ultimately show ?thesis
    using map' uniq' stored
    by (intro exI [of _ ?db'] exI [of _ ?b']) (simp add: map_of_dict_set)
qed

text \<open>
  C6, as amended: for an uploader that has a primary key and a payload whose
  \<^verbatim>\<open>settings\<close> is a list of entries with \<^verbatim>\<open>key\<close> and \<^verbatim>\<open>value\<close>, over a table
  that holds at most one setting for each uploader and key, and when no other uploader
  has the MAC address of this one, \<^verbatim>\<open>hydrate_m2m\<close> upserts every entry: the
  settings afterwards are the settings before overridden by the entries (a later
  entry of the same key overrides an earlier one), a stored setting getting the new
  value and a missing one being created; \<^verbatim>\<open>settings_updated\<close> of the uploader
  object is set to the clock reading, the uploader is saved, and the parent's
  \<^verbatim>\<open>hydrate_m2m\<close> receives the payload without \<^verbatim>\<open>settings\<close>. The table has no
  duplicate afterwards, and none after the loop whatever the payload's entries are,
  also when the loop ends with an exception.
\<close>

theorem settings_upsert:
  assumes existing: "uploader_id (obj b) = Some uid" and nonzero: "uid \<noteq> 0"
    and payload: "map_of (data b) ''settings'' = Some (PList settings)"
    and entries: "entries_of settings kvs"
    and keys: "primary_keys_ok setting_id (uploader_settings db)"
    and uniq: "settings_unique (uploader_settings db)"
    and mac: "\<not> violates_unique uploader_id mac_address (uploaders db) (obj b)"
  shows "(\<exists>db' b'. hydrate_m2m now super_hydrate_m2m db b = super_hydrate_m2m db' b' \<and>
            settings_map (uploader_settings db') =
              settings_map (uploader_settings db) ++
              map_of (map (\<lambda>kv. ((uid, fst kv), snd kv)) (rev kvs)) \<and>
            settings_unique (uploader_settings db') \<and>
            map_of (obj_attrs b') ''settings_updated'' = Some (PTime now) \<and>
            obj b' = obj b \<and>
            obj b \<in> set (uploaders db') \<and>
            data b' = dict_del (data b) ''settings'' \<and>
            map_of (data b') ''settings'' = None) \<and>
         (\<forall>any. settings_unique (snd (upsert_settings uid any (uploader_settings db))))"
  using settings_upsert_run [OF existing nonzero payload entries keys uniq mac]
    upsert_settings_preserves [OF keys uniq]
  by blast

text \<open>
  Witness for C6: a stored setting is overwritten and a second one created, for an
  uploader that is in the database.
\<close>

theorem settings_upsert_witness:
  "settings_map (uploader_settings
      (snd (hydrate_m2m 42 super_hydrate_m2m_returns settings_database
              (bundle_of settings_payload)))) (1, PStr ''folder'') = Some (PStr ''D:/data'') \<and>
   settings_map (uploader_settings
      (snd (hydrate_m2m 42 super_hydrate_m2m_returns settings_database
              (bundle_of settings_payload)))) (1, PStr ''interval'') = Some (PInt 5) \<and>
   settings_unique (uploader_settings
      (snd (hydrate_m2m 42 super_hydrate_m2m_returns settings_database
              (bundle_of settings_payload))))"
proof -
  let ?b = "bundle_of settings_payload"
  let ?settings = "[PDict [(''key'', PStr ''folder''), (''value'', PStr ''D:/data'')],
                    PDict [(''key'', PStr ''interval''), (''value'', PInt 5)]]"
  let ?kvs = "[(PStr ''folder'', PStr ''D:/data''), (PStr ''interval'', PInt 5)]"
  have existing: "uploader_id (obj ?b) = Some 1"
    by (simp add: bundle_of_def instrument_pc_def)
  have nonzero: "(1::nat) \<noteq> 0"
    by simp
  have payload: "map_of (data ?b) ''settings'' = Some (PList ?settings)"
    by (simp add: bundle_of_def settings_payload_def)
  have entries: "entries_of ?settings ?kvs"
    by (simp add: entries_of_def entry_of_def py_getitem_def dict_get_def)
  have keys: "primary_keys_ok setting_id (uploader_settings settings_database)"
    by (simp add: settings_database_def primary_keys_ok_def stored_setting_def)
  have uniq: "settings_unique (uploader_settings settings_database)"
    by (simp add: settings_database_def settings_unique_def)
  have mac: "\<not> violates_unique uploader_id mac_address (uploaders settings_database) (obj ?b)"
    by (simp add: settings_database_def example_database_def bundle_of_def violates_unique_def)
  from settings_upsert [OF existing nonzero payload entries keys uniq mac,
      of 42 super_hydrate_m2m_returns]
  obtain db' b' where run: "hydrate_m2m 42 super_hydrate_m2m_returns settings_database ?b =
        super_hydrate_m2m_returns db' b'"
    and map': "settings_map (uploader_settings db') =
        settings_map (uploader_settings settings_database) ++
        map_of (map (\<lambda>kv. ((1, fst kv), snd kv)) (rev ?kvs))"
    and uniq': "settings_unique (uploader_settings db')"
    by blast
  from run have "snd (hydrate_m2m 42 super_hydrate_m2m_returns settings_database ?b) = db'"
    by (simp add: super_hydrate_m2m_returns_def)
  with map' uniq' show ?thesis
    by (simp add: map_add_def)
qed

text \<open>
  C6, as written, speaks of every update of an existing uploader with a list of
  settings. The settings resource lets a client save a second setting of the same
  uploader and key; on the table with both, the lookup of the setting raises
  \<^verbatim>\<open>MultipleObjectsReturned\<close>, nothing is upserted, \<^verbatim>\<open>settings\<close> stays in the
  payload and \<^verbatim>\<open>settings_updated\<close> is not set.
\<close>

theorem settings_upsert_counterexample:
  "uploader_settings doubled_database =
     [stored_setting, second_folder\<lparr>setting_id := Some 2\<rparr>] \<and>
   hydrate_m2m 42 super_hydrate_m2m_returns doubled_database (bundle_of settings_payload) =
     (Inl MultipleObjectsReturned, doubled_database)"
  by (simp add: doubled_database_def example_database_def save_uploader_setting_def
      store_row_def next_id_def stored_setting_def second_folder_def Let_def
      hydrate_m2m_def bundle_of_def instrument_pc_def settings_payload_def dict_has_def
      dict_get_def py_iter_def upsert_setting_def py_getitem_def objects_get_def)


end
